theory Spec2Isabelle
  imports Complex_Main
begin

section \<open>Ordered forest (orf.py): data model\<close>

text \<open>
  A two-dimensional numpy array is a list of rows. Entries are exact real numbers:
  rounding is not modelled, except for the quotient of one tree's weights, which is
  given a second time with the rounding of float64. A numpy result that holds \<open>nan\<close>
  or \<open>inf\<close> has no counterpart among the reals, so it is recorded as the outcome
  \<open>NonFinite\<close>.
\<close>

type_synonym matrix = "real list list"

datatype error =
    ValueError string
  | KeyError
  | IndexError
  | ZeroDivisionError
  | UnboundLocalError
  | NonFinite

text \<open>
  \<open>ValueError\<close>, \<open>KeyError\<close>, \<open>IndexError\<close>, \<open>ZeroDivisionError\<close> and
  \<open>UnboundLocalError\<close> are the Python exceptions of these names (the message of a
  \<open>ValueError\<close> is abbreviated). \<open>NonFinite\<close> is not an exception: numpy divides an
  array by zero with a warning only and carries on with \<open>nan\<close>/\<open>inf\<close> entries; the
  model stops there with this outcome.
\<close>


section \<open>Class probabilities from cumulative probabilities\<close>

text \<open>
  The block of \<open>fit\<close> (repeated verbatim in \<open>predict\<close>):
  \<^verbatim>\<open>
  probs_0 = np.hstack((np.zeros((n_samples, 1)), probs))
  probs_1 = np.hstack((probs, np.ones((n_samples, 1))))
  class_probs = probs_1 - probs_0
  class_probs[class_probs < 0] = 0
  class_probs = class_probs / class_probs.sum(axis=1).reshape(-1, 1)
  \<close>
  \<open>probs\<close> has \<open>n_samples\<close> rows by construction, so the stacked columns are one
  entry per row.
\<close>

definition probs_0 :: "matrix \<Rightarrow> matrix" where
  "probs_0 probs = map (\<lambda>row. 0 # row) probs"

definition probs_1 :: "matrix \<Rightarrow> matrix" where
  "probs_1 probs = map (\<lambda>row. row @ [1]) probs"

definition class_probs_diff :: "matrix \<Rightarrow> matrix" where
  "class_probs_diff probs = map2 (map2 (-)) (probs_1 probs) (probs_0 probs)"

definition clip_negative :: "matrix \<Rightarrow> matrix" where
  "clip_negative cp = map (map (\<lambda>x. if x < 0 then 0 else x)) cp"

definition normalize_rows :: "matrix \<Rightarrow> error + matrix" where
  "normalize_rows cp =
     (if \<exists>row \<in> set cp. row \<noteq> [] \<and> sum_list row = 0 then Inl NonFinite
      else Inr (map (\<lambda>row. map (\<lambda>x. x / sum_list row) row) cp))"

definition class_probs :: "matrix \<Rightarrow> error + matrix" where
  "class_probs probs = normalize_rows (clip_negative (class_probs_diff probs))"

section \<open>One tree's weights: \<open>honest_weight_numpy\<close>\<close>

text \<open>
  Leaf identifiers are integers. \<open>np.unique\<close> gives the sorted distinct values,
  \<open>np.setdiff1d a b\<close> the sorted distinct values of \<open>a\<close> that are not in \<open>b\<close>.
\<close>

definition np_unique :: "int list \<Rightarrow> int list" where
  "np_unique xs = sort (remdups xs)"

definition np_setdiff1d :: "int list \<Rightarrow> int list \<Rightarrow> int list" where
  "np_setdiff1d a b = filter (\<lambda>x. x \<notin> set b) (np_unique a)"

text \<open>
  \<open>OneHotEncoder(sparse=True).fit_transform(v.reshape(-1, 1))\<close> of scikit-learn: one
  row per entry of \<open>v\<close>, one column per distinct value of \<open>v\<close> in increasing order; the
  encoder rejects an array without samples.
\<close>

definition onehot :: "int list \<Rightarrow> error + matrix" where
  "onehot v =
     (if v = [] then Inl (ValueError ''Found array with 0 sample(s)'')
      else Inr (map (\<lambda>x. map (\<lambda>c. if x = c then 1 else 0) (np_unique v)) v))"

text \<open>
  \<open>A.dot(B)\<close>: row times column; the product of matrices whose inner dimensions differ
  raises.
\<close>

definition dot :: "matrix \<Rightarrow> matrix \<Rightarrow> error + matrix" where
  "dot A B =
     (if \<exists>a \<in> set A. length a \<noteq> length B then Inl (ValueError ''dimension mismatch'')
      else Inr (map (\<lambda>a. map (\<lambda>b. sum_list (map2 (*) a b)) (transpose B)) A))"

text \<open>
  \<open>tree_out / leaf_size\<close> with \<open>leaf_size\<close> a column: every row is divided by its own
  entry of \<open>leaf_size\<close>. A zero divisor gives \<open>nan\<close> or \<open>inf\<close>, not an exception.
\<close>

definition divide_rows :: "matrix \<Rightarrow> real list \<Rightarrow> error + matrix" where
  "divide_rows M sizes =
     (if \<exists>(row, s) \<in> set (zip M sizes). row \<noteq> [] \<and> s = 0 then Inl NonFinite
      else Inr (map2 (\<lambda>row s. map (\<lambda>x. x / s) row) M sizes))"

text \<open>
  The body of \<open>honest_weight_numpy\<close> (and of the module-level copy
  \<open>honest_weight_numpy_out\<close>, and of the loop of \<open>fit\<close> under \<open>numpy_loop\<close>, which
  are the same text) from the two vectors of leaf identifiers on.
\<close>

definition tree_weight :: "int list \<Rightarrow> int list \<Rightarrow> nat \<Rightarrow> nat \<Rightarrow> error + matrix" where
  "tree_weight leaf_IDs_honest leaf_IDs_all n_samples n_est =
     (let leaf_IDs_honest_u = np_unique leaf_IDs_honest;
          leaf_IDs_all_u = np_unique leaf_IDs_all;
          array_equal = (leaf_IDs_honest_u = leaf_IDs_all_u);
          leaf_IDs_honest_ext =
            (if array_equal then leaf_IDs_honest
             else leaf_IDs_honest @ np_setdiff1d leaf_IDs_all_u leaf_IDs_honest_u);
          leaf_IDs_all_ext =
            (if array_equal then leaf_IDs_all
             else leaf_IDs_all @ np_setdiff1d leaf_IDs_honest_u leaf_IDs_all_u)
      in case onehot leaf_IDs_honest_ext of
           Inl e \<Rightarrow> Inl e
         | Inr oh_honest \<Rightarrow>
            (case onehot leaf_IDs_all_ext of
               Inl e \<Rightarrow> Inl e
             | Inr oh_all \<Rightarrow>
                (let onehot_honest = transpose oh_honest;
                     onehot_all = take n_samples oh_all
                 in case dot onehot_all onehot_honest of
                      Inl e \<Rightarrow> Inl e
                    | Inr tree_out \<Rightarrow>
                       (let leaf_size = map sum_list tree_out;
                            tree_out' =
                              (if \<not> array_equal
                               then map (take n_est) (take n_samples tree_out)
                               else tree_out)
                        in divide_rows tree_out' leaf_size))))"

text \<open>
  \<open>forest_apply[:, tree]\<close>: one column of an array; an index beyond the columns raises.
\<close>

definition column :: "nat \<Rightarrow> 'a list list \<Rightarrow> error + 'a list" where
  "column tree M =
     (if \<exists>row \<in> set M. length row \<le> tree then Inl IndexError
      else Inr (map (\<lambda>row. row ! tree) M))"

definition honest_weight_numpy ::
  "nat \<Rightarrow> int list list \<Rightarrow> int list list \<Rightarrow> nat \<Rightarrow> nat \<Rightarrow> error + matrix" where
  "honest_weight_numpy tree forest_apply forest_apply_all n_samples n_est =
     (case column tree forest_apply of
        Inl e \<Rightarrow> Inl e
      | Inr leaf_IDs_honest \<Rightarrow>
         (case column tree forest_apply_all of
            Inl e \<Rightarrow> Inl e
          | Inr leaf_IDs_all \<Rightarrow> tree_weight leaf_IDs_honest leaf_IDs_all n_samples n_est))"

section \<open>One tree's weights with the quotient rounded to float64\<close>

text \<open>
  The arrays of \<open>honest_weight_numpy\<close> hold float64 numbers. The entries of the
  one-hot matrices, their products and the leaf sizes are zeros, ones and counts, which
  float64 represents exactly up to \<open>2^53\<close>; the quotient \<open>tree_out / leaf_size\<close> is
  the one operation of the function that rounds. An IEEE 754 division returns the
  float64 number nearest to the exact quotient, a tie going to the neighbour with the
  even significand: for \<open>2^e \<le> |x| < 2^(e+1)\<close> the float64 numbers around \<open>x\<close> are
  the multiples of \<open>2^(e-52)\<close>. Overflow and subnormal results are outside this
  definition; the quotient of 0 or 1 by a count up to \<open>2^53\<close> is neither.
\<close>

definition round_half_even :: "real \<Rightarrow> int" where
  "round_half_even q =
     (let f = \<lfloor>q\<rfloor>; r = q - of_int f
      in if r < 1/2 then f else if r > 1/2 then f + 1 else if even f then f else f + 1)"

definition float64 :: "real \<Rightarrow> real" where
  "float64 x =
     (if x = 0 then 0
      else let e = \<lfloor>log 2 \<bar>x\<bar>\<rfloor>; ulp = 2 powr (of_int e - 52)
           in of_int (round_half_even (x / ulp)) * ulp)"

text \<open>\<open>tree_out / leaf_size\<close> as numpy computes it, every quotient rounded.\<close>

definition divide_rows_float64 :: "matrix \<Rightarrow> real list \<Rightarrow> error + matrix" where
  "divide_rows_float64 M sizes =
     (if \<exists>(row, s) \<in> set (zip M sizes). row \<noteq> [] \<and> s = 0 then Inl NonFinite
      else Inr (map2 (\<lambda>row s. map (\<lambda>x. float64 (x / s)) row) M sizes))"

text \<open>The body of \<open>honest_weight_numpy\<close> once more, with this quotient.\<close>

definition tree_weight_float64 :: "int list \<Rightarrow> int list \<Rightarrow> nat \<Rightarrow> nat \<Rightarrow> error + matrix" where
  "tree_weight_float64 leaf_IDs_honest leaf_IDs_all n_samples n_est =
     (let leaf_IDs_honest_u = np_unique leaf_IDs_honest;
          leaf_IDs_all_u = np_unique leaf_IDs_all;
          array_equal = (leaf_IDs_honest_u = leaf_IDs_all_u);
          leaf_IDs_honest_ext =
            (if array_equal then leaf_IDs_honest
             else leaf_IDs_honest @ np_setdiff1d leaf_IDs_all_u leaf_IDs_honest_u);
          leaf_IDs_all_ext =
            (if array_equal then leaf_IDs_all
             else leaf_IDs_all @ np_setdiff1d leaf_IDs_honest_u leaf_IDs_all_u)
      in case onehot leaf_IDs_honest_ext of
           Inl e \<Rightarrow> Inl e
         | Inr oh_honest \<Rightarrow>
            (case onehot leaf_IDs_all_ext of
               Inl e \<Rightarrow> Inl e
             | Inr oh_all \<Rightarrow>
                (let onehot_honest = transpose oh_honest;
                     onehot_all = take n_samples oh_all
                 in case dot onehot_all onehot_honest of
                      Inl e \<Rightarrow> Inl e
                    | Inr tree_out \<Rightarrow>
                       (let leaf_size = map sum_list tree_out;
                            tree_out' =
                              (if \<not> array_equal
                               then map (take n_est) (take n_samples tree_out)
                               else tree_out)
                        in divide_rows_float64 tree_out' leaf_size))))"

definition honest_weight_numpy_float64 ::
  "nat \<Rightarrow> int list list \<Rightarrow> int list list \<Rightarrow> nat \<Rightarrow> nat \<Rightarrow> error + matrix" where
  "honest_weight_numpy_float64 tree forest_apply forest_apply_all n_samples n_est =
     (case column tree forest_apply of
        Inl e \<Rightarrow> Inl e
      | Inr leaf_IDs_honest \<Rightarrow>
         (case column tree forest_apply_all of
            Inl e \<Rightarrow> Inl e
          | Inr leaf_IDs_all \<Rightarrow>
              tree_weight_float64 leaf_IDs_honest leaf_IDs_all n_samples n_est))"

section \<open>The forest's weights in \<open>fit\<close>: two of the aggregation strategies\<close>

definition zeros :: "nat \<Rightarrow> nat \<Rightarrow> matrix" where
  "zeros n m = replicate n (replicate m 0)"

text \<open>
  \<open>forest_out + tree_out\<close>, entry by entry. Both operands have \<open>n_samples\<close> rows of
  \<open>n_est\<close> entries whenever the tree's weights are returned (lemma
  \<open>honest_weight_numpy_shape\<close> below).
\<close>

definition madd :: "matrix \<Rightarrow> matrix \<Rightarrow> matrix" where
  "madd A B = map2 (map2 (+)) A B"

text \<open>
  \<open>weight_method == 'numpy_loop'\<close>: one pass over the trees, adding each tree's weights
  to \<open>forest_out\<close>; an exception of a tree ends the loop.
  \<^verbatim>\<open>
  forest_out = np.zeros((n_samples, n_est))
  for tree in range(self.n_estimators):
      ...                                  # the text of honest_weight_numpy
      forest_out = forest_out + tree_out
  \<close>
\<close>

fun numpy_loop ::
  "int list list \<Rightarrow> int list list \<Rightarrow> nat \<Rightarrow> nat \<Rightarrow> nat list \<Rightarrow> matrix \<Rightarrow> error + matrix" where
  "numpy_loop forest_apply forest_apply_all n_samples n_est [] forest_out = Inr forest_out"
| "numpy_loop forest_apply forest_apply_all n_samples n_est (tree # trees) forest_out =
     (case honest_weight_numpy tree forest_apply forest_apply_all n_samples n_est of
        Inl e \<Rightarrow> Inl e
      | Inr tree_out \<Rightarrow>
         numpy_loop forest_apply forest_apply_all n_samples n_est trees
           (madd forest_out tree_out))"

text \<open>
  \<open>pool.map(partial_fun, range(self.n_estimators))\<close>: every task is run, the results come
  back in the order of the tasks, and an exception of a task is raised in the caller
  (with several failing tasks the model reports the first in task order).
\<close>

fun pool_map :: "(nat \<Rightarrow> error + 'a) \<Rightarrow> nat list \<Rightarrow> error + 'a list" where
  "pool_map f [] = Inr []"
| "pool_map f (task # tasks) =
     (case f task of
        Inl e \<Rightarrow> Inl e
      | Inr y \<Rightarrow> (case pool_map f tasks of Inl e \<Rightarrow> Inl e | Inr ys \<Rightarrow> Inr (y # ys)))"

text \<open>
  \<open>trees_out.sum(0)\<close> of the stacked per-tree matrices: entry \<open>(i, j)\<close> is the sum of the
  entries \<open>(i, j)\<close> of all trees. The stack is never empty (\<open>n_estimators \<ge> 1\<close>).
\<close>

definition sum_axis0 :: "matrix list \<Rightarrow> matrix" where
  "sum_axis0 trees_out =
     (case trees_out of
        [] \<Rightarrow> []
      | M # _ \<Rightarrow>
         map (\<lambda>i. map (\<lambda>j. sum_list (map (\<lambda>T. T ! i ! j) trees_out)) [0..<length (M ! i)])
           [0..<length M])"

text \<open>
  The weights of one class in \<open>fit\<close>. \<open>input_checks\<close> has rejected
  \<open>n_estimators < 1\<close>; \<open>n_samples\<close> is the number of rows of \<open>X\<close>, which is the number
  of rows of \<open>forest_apply_all\<close>, and \<open>n_est = forest_apply.shape[0]\<close>. The sum over the
  trees is divided by the number of trees.
\<close>

definition fit_weights_numpy_loop :: "int list list \<Rightarrow> int list list \<Rightarrow> nat \<Rightarrow> error + matrix" where
  "fit_weights_numpy_loop forest_apply forest_apply_all n_estimators =
     (if n_estimators < 1 then Inl (ValueError ''n_estimators must be at least 1'')
      else
        let n_samples = length forest_apply_all; n_est = length forest_apply
        in case numpy_loop forest_apply forest_apply_all n_samples n_est [0..<n_estimators]
                  (zeros n_samples n_est) of
             Inl e \<Rightarrow> Inl e
           | Inr forest_out \<Rightarrow> Inr (map (map (\<lambda>w. w / real n_estimators)) forest_out))"

definition fit_weights_numpy_loop_mpire ::
  "int list list \<Rightarrow> int list list \<Rightarrow> nat \<Rightarrow> error + matrix" where
  "fit_weights_numpy_loop_mpire forest_apply forest_apply_all n_estimators =
     (if n_estimators < 1 then Inl (ValueError ''n_estimators must be at least 1'')
      else
        let n_samples = length forest_apply_all; n_est = length forest_apply;
            partial_fun = (\<lambda>tree. honest_weight_numpy tree forest_apply forest_apply_all
                                     n_samples n_est)
        in case pool_map partial_fun [0..<n_estimators] of
             Inl e \<Rightarrow> Inl e
           | Inr trees_out \<Rightarrow>
              (let forest_out = sum_axis0 trees_out
               in Inr (map (map (\<lambda>w. w / real n_estimators)) forest_out)))"

section \<open>The variance of the predictions: \<open>honest_variance\<close>\<close>

text \<open>
  A Python dictionary keyed by the class index is a map; reading a missing key raises
  \<open>KeyError\<close>. \<open>andthen\<close> passes a result on and lets an exception through.
\<close>

definition lookup :: "(nat \<rightharpoonup> 'v) \<Rightarrow> nat \<Rightarrow> error + 'v" where
  "lookup d k = (case d k of None \<Rightarrow> Inl KeyError | Some v \<Rightarrow> Inr v)"

definition andthen :: "error + 'a \<Rightarrow> ('a \<Rightarrow> error + 'b) \<Rightarrow> error + 'b" where
  "andthen m f = (case m of Inl e \<Rightarrow> Inl e | Inr x \<Rightarrow> f x)"

definition broadcast_error :: error where
  "broadcast_error = ValueError ''operands could not be broadcast together''"

definition same_shape :: "matrix \<Rightarrow> matrix \<Rightarrow> bool" where
  "same_shape A B \<longleftrightarrow> map length A = map length B"

definition zeros_like :: "matrix \<Rightarrow> matrix" where
  "zeros_like M = map (map (\<lambda>_. 0)) M"

definition zeros_like_vec :: "real list \<Rightarrow> real list" where
  "zeros_like_vec v = map (\<lambda>_. 0) v"

text \<open>
  The body of the first loop, for one class:
  \<^verbatim>\<open>
  honest_pred_mean = np.reshape(probs[:, (class_idx-1)] / n_est, (-1, 1))
  honest_multi = np.multiply(weights[class_idx],
                             outcome_binary[class_idx].reshape((1, -1)))
  honest_multi_demeaned[class_idx] = honest_multi - honest_pred_mean
  honest_multi_demeaned_sq = np.square(honest_multi_demeaned[class_idx])
  honest_multi_demeaned_sq_sum = np.sum(honest_multi_demeaned_sq, axis=1)
  honest_variance[class_idx] = (honest_multi_demeaned_sq_sum * (n_est/(n_est-1)))
  \<close>
  \<open>n_est\<close> is a Python integer: dividing the array by \<open>n_est = 0\<close> gives non-finite
  entries, while \<open>n_est/(n_est-1)\<close> with \<open>n_est = 1\<close> raises \<open>ZeroDivisionError\<close>.
  Operands whose shapes differ are reported as the broadcast error (numpy would stretch
  a dimension of size one; no caller passes such operands). The result is the entry of
  \<open>honest_multi_demeaned\<close> and the entry of \<open>honest_variance\<close> for the class.
\<close>

definition class_variance ::
  "matrix \<Rightarrow> (nat \<rightharpoonup> matrix) \<Rightarrow> (nat \<rightharpoonup> real list) \<Rightarrow> nat \<Rightarrow> nat \<Rightarrow> error + (matrix \<times> real list)" where
  "class_variance probs weights outcome_binary n_est class_idx =
     andthen (column (class_idx - 1) probs) (\<lambda>p.
       if n_est = 0 \<and> p \<noteq> [] then Inl NonFinite
       else
         let honest_pred_mean = map (\<lambda>x. x / real n_est) p
         in andthen (lookup weights class_idx) (\<lambda>W.
            andthen (lookup outcome_binary class_idx) (\<lambda>y.
              if (\<exists>row \<in> set W. length row \<noteq> length y) \<or> length W \<noteq> length honest_pred_mean
              then Inl broadcast_error
              else
                let honest_multi = map (\<lambda>row. map2 (*) row y) W;
                    honest_multi_demeaned =
                      map2 (\<lambda>row pm. map (\<lambda>x. x - pm) row) honest_multi honest_pred_mean;
                    honest_multi_demeaned_sq = map (map (\<lambda>x. x\<^sup>2)) honest_multi_demeaned;
                    honest_multi_demeaned_sq_sum = map sum_list honest_multi_demeaned_sq
                in if n_est = 1 then Inl ZeroDivisionError
                   else Inr (honest_multi_demeaned,
                             map (\<lambda>s. s * (real n_est / (real n_est - 1)))
                               honest_multi_demeaned_sq_sum))))"

text \<open>The first loop, \<open>for class_idx in range(1, nclass, 1)\<close>, filling the two dictionaries.\<close>

fun variance_loop ::
  "matrix \<Rightarrow> (nat \<rightharpoonup> matrix) \<Rightarrow> (nat \<rightharpoonup> real list) \<Rightarrow> nat \<Rightarrow> nat list \<Rightarrow>
   (nat \<rightharpoonup> matrix) \<times> (nat \<rightharpoonup> real list) \<Rightarrow> error + ((nat \<rightharpoonup> matrix) \<times> (nat \<rightharpoonup> real list))" where
  "variance_loop probs weights outcome_binary n_est [] dicts = Inr dicts"
| "variance_loop probs weights outcome_binary n_est (class_idx # rest) dicts =
     andthen (class_variance probs weights outcome_binary n_est class_idx) (\<lambda>(d, v).
       variance_loop probs weights outcome_binary n_est rest
         ((fst dicts)(class_idx \<mapsto> d), (snd dicts)(class_idx \<mapsto> v)))"

text \<open>
  \<open>for class_idx in range(1, nclass, 1): first[class_idx+1] = d[class_idx]\<close>, the shift
  of a dictionary by one class.
\<close>

fun shift_loop :: "(nat \<rightharpoonup> 'v) \<Rightarrow> nat list \<Rightarrow> (nat \<rightharpoonup> 'v) \<Rightarrow> error + (nat \<rightharpoonup> 'v)" where
  "shift_loop d [] d_first = Inr d_first"
| "shift_loop d (class_idx # rest) d_first =
     andthen (lookup d class_idx) (\<lambda>v. shift_loop d rest (d_first(class_idx + 1 \<mapsto> v)))"

text \<open>
  The covariance loop, \<open>for class_idx in range(1, nclass+1, 1)\<close>:
  \<^verbatim>\<open>
  honest_multi_demeaned_cov = np.multiply(
      honest_multi_demeaned_0_first[class_idx],
      honest_multi_demeaned_0_last[class_idx])
  honest_multi_demeaned_cov_sum = np.sum(honest_multi_demeaned_cov, axis=1)
  honest_covariance[class_idx] = honest_multi_demeaned_cov_sum*2*(n_est/(n_est-1))
  \<close>
\<close>

fun covariance_loop ::
  "(nat \<rightharpoonup> matrix) \<Rightarrow> (nat \<rightharpoonup> matrix) \<Rightarrow> nat \<Rightarrow> nat list \<Rightarrow> (nat \<rightharpoonup> real list) \<Rightarrow>
   error + (nat \<rightharpoonup> real list)" where
  "covariance_loop dem_first dem_last n_est [] honest_covariance = Inr honest_covariance"
| "covariance_loop dem_first dem_last n_est (class_idx # rest) honest_covariance =
     andthen (lookup dem_first class_idx) (\<lambda>A.
     andthen (lookup dem_last class_idx) (\<lambda>B.
       if \<not> same_shape A B then Inl broadcast_error
       else
         let honest_multi_demeaned_cov = map2 (map2 (*)) A B;
             honest_multi_demeaned_cov_sum = map sum_list honest_multi_demeaned_cov
         in if n_est = 1 then Inl ZeroDivisionError
            else covariance_loop dem_first dem_last n_est rest
                   (honest_covariance(class_idx \<mapsto>
                      map (\<lambda>s. s * 2 * (real n_est / (real n_est - 1)))
                        honest_multi_demeaned_cov_sum))))"

text \<open>
  The last loop writes column \<open>class_idx - 1\<close> of the result, for \<open>class_idx\<close> from 1 to
  \<open>nclass\<close>: \<open>var_last + var_first - cov\<close>. The columns are collected in this order;
  each must have one entry per row of \<open>probs\<close>.
\<close>

fun final_loop ::
  "(nat \<rightharpoonup> real list) \<Rightarrow> (nat \<rightharpoonup> real list) \<Rightarrow> (nat \<rightharpoonup> real list) \<Rightarrow> nat \<Rightarrow> nat list \<Rightarrow>
   real list list \<Rightarrow> error + real list list" where
  "final_loop var_last var_first cov n_rows [] columns = Inr columns"
| "final_loop var_last var_first cov n_rows (class_idx # rest) columns =
     andthen (lookup var_last class_idx) (\<lambda>a.
     andthen (lookup var_first class_idx) (\<lambda>b.
     andthen (lookup cov class_idx) (\<lambda>c.
       if length a \<noteq> n_rows \<or> length b \<noteq> n_rows \<or> length c \<noteq> n_rows
       then Inl broadcast_error
       else final_loop var_last var_first cov n_rows rest
              (columns @ [map (\<lambda>i. a ! i + b ! i - c ! i) [0..<n_rows]]))))"

text \<open>
  \<open>honest_variance(probs, weights, outcome_binary, nclass, n_est)\<close>. The names
  \<open>honest_multi_demeaned_0_last\<close> and \<open>honest_multi_demeaned\<close> are one dictionary (the
  assignment copies nothing), and so are \<open>honest_variance_last\<close> and
  \<open>honest_variance\<close>: the key \<open>nclass\<close> is added to both names at once. Reading the key 1
  raises \<open>KeyError\<close> when there is a single class.
\<close>

definition honest_variance ::
  "matrix \<Rightarrow> (nat \<rightharpoonup> matrix) \<Rightarrow> (nat \<rightharpoonup> real list) \<Rightarrow> nat \<Rightarrow> nat \<Rightarrow> error + matrix" where
  "honest_variance probs weights outcome_binary nclass n_est =
     andthen (variance_loop probs weights outcome_binary n_est [1..<nclass]
                (Map.empty, Map.empty)) (\<lambda>(honest_multi_demeaned, honest_variance).
     andthen (lookup honest_multi_demeaned 1) (\<lambda>d1.
       let honest_multi_demeaned_0_last = honest_multi_demeaned(nclass \<mapsto> zeros_like d1)
       in andthen (lookup honest_multi_demeaned_0_last 1) (\<lambda>d1'.
          andthen (shift_loop honest_multi_demeaned_0_last [1..<nclass]
                     (Map.empty(1 \<mapsto> zeros_like d1'))) (\<lambda>honest_multi_demeaned_0_first.
          andthen (covariance_loop honest_multi_demeaned_0_first honest_multi_demeaned_0_last
                     n_est [1..<nclass + 1] Map.empty) (\<lambda>honest_covariance.
          andthen (lookup honest_variance 1) (\<lambda>v1.
            let honest_variance_last = honest_variance(nclass \<mapsto> zeros_like_vec v1)
            in andthen (lookup honest_variance_last 1) (\<lambda>v1'.
               andthen (shift_loop honest_variance_last [1..<nclass]
                          (Map.empty(1 \<mapsto> zeros_like_vec v1'))) (\<lambda>honest_variance_first.
               andthen (final_loop honest_variance_last honest_variance_first
                          honest_covariance (length probs) [1..<nclass + 1] []) (\<lambda>columns.
                 Inr (map (\<lambda>i. map (\<lambda>col. col ! i) columns) [0..<length probs]))))))))))"

text \<open>
  The claim's formula, in its own words: the de-meaned entries \<open>d_k\<close>, the variance
  \<open>Var_k\<close> and the covariance \<open>Cov_k\<close> of the cut-point \<open>k\<close>, with \<open>n\<close> the sample size
  of the scaling and \<open>m\<close> the number of honest observations; the cut-points 0 and
  \<open>nclass\<close> contribute zero.
\<close>

definition d_spec ::
  "(nat \<Rightarrow> matrix) \<Rightarrow> (nat \<Rightarrow> real list) \<Rightarrow> matrix \<Rightarrow> nat \<Rightarrow> nat \<Rightarrow> nat \<Rightarrow> nat \<Rightarrow> nat \<Rightarrow> real" where
  "d_spec W y p n nclass k i j =
     (if 1 \<le> k \<and> k < nclass then W k ! i ! j * y k ! j - p ! i ! (k - 1) / real n else 0)"

definition Var_spec ::
  "(nat \<Rightarrow> matrix) \<Rightarrow> (nat \<Rightarrow> real list) \<Rightarrow> matrix \<Rightarrow> nat \<Rightarrow> nat \<Rightarrow> nat \<Rightarrow> nat \<Rightarrow> nat \<Rightarrow> real" where
  "Var_spec W y p n m nclass k i =
     (if 1 \<le> k \<and> k < nclass
      then (real n / (real n - 1)) * (\<Sum>j < m. (W k ! i ! j * y k ! j - p ! i ! (k - 1) / real n)\<^sup>2)
      else 0)"

definition Cov_spec ::
  "(nat \<Rightarrow> matrix) \<Rightarrow> (nat \<Rightarrow> real list) \<Rightarrow> matrix \<Rightarrow> nat \<Rightarrow> nat \<Rightarrow> nat \<Rightarrow> nat \<Rightarrow> nat \<Rightarrow> real" where
  "Cov_spec W y p n m nclass k i =
     2 * (real n / (real n - 1))
       * (\<Sum>j < m. d_spec W y p n nclass (k - 1) i j * d_spec W y p n nclass k i j)"

section \<open>The variance in \<open>fit\<close> under honesty and inference\<close>

text \<open>
  \<open>M[ind, :]\<close>: the rows of \<open>M\<close> at the positions \<open>ind\<close>, in that order; a position
  beyond the rows raises. The positions are observation indices, never negative.
\<close>

definition take_rows :: "'a list \<Rightarrow> nat list \<Rightarrow> error + 'a list" where
  "take_rows M ind =
     (if \<exists>i \<in> set ind. length M \<le> i then Inl IndexError else Inr (map (\<lambda>i. M ! i) ind))"

text \<open>
  \<open>ind.argsort()\<close>: the positions of the entries of \<open>ind\<close> in increasing order of the
  entries (for equal entries numpy's order is not specified; the model keeps their
  order, and the indices of a partition are distinct).
\<close>

definition argsort :: "nat list \<Rightarrow> nat list" where
  "argsort ind = map snd (sort_key fst (zip ind [0..<length ind]))"

text \<open>\<open>dict([(key, weights[key][ind, :]) for key in range(1, nclass, 1)])\<close>\<close>

fun weights_rows ::
  "(nat \<rightharpoonup> matrix) \<Rightarrow> nat list \<Rightarrow> nat list \<Rightarrow> (nat \<rightharpoonup> matrix) \<Rightarrow> error + (nat \<rightharpoonup> matrix)" where
  "weights_rows weights ind [] d = Inr d"
| "weights_rows weights ind (key # keys) d =
     andthen (lookup weights key) (\<lambda>W.
     andthen (take_rows W ind) (\<lambda>rows. weights_rows weights ind keys (d(key \<mapsto> rows))))"

text \<open>
  The block of \<open>fit\<close> under \<open>if self.inference\<close>:
  \<^verbatim>\<open>
  probs_honest = probs[ind_est, :]
  weights_honest = dict([(key, weights[key][ind_est, :]) for key in range(1, nclass, 1)])
  variance_honest = self.honest_variance(
      probs=probs_honest, weights=weights_honest,
      outcome_binary=outcome_binary_est, nclass=nclass, n_est=n_est)
  n_tr = len(ind_tr)
  probs_train = probs[ind_tr, :]
  weights_train = dict([(key, weights[key][ind_tr, :]) for key in range(1, nclass, 1)])
  variance_train = self.honest_variance(
      probs=probs_train, weights=weights_train,
      outcome_binary=outcome_binary_est, nclass=nclass, n_est=n_tr)
  variance = np.vstack((variance_honest, variance_train))
  ind_all = np.hstack((ind_est, ind_tr))
  variance = variance[ind_all.argsort(), :]
  \<close>
  \<open>n_est\<close> was set in the loop over the classes to \<open>forest_apply.shape[0]\<close>, the number
  of rows of the honest sample \<open>X_est\<close>, which is \<open>len(ind_est)\<close> (the two calls of the
  splitter use the same seed); with a single class the loop has no pass and the name is
  unbound.
\<close>

definition fit_variance ::
  "matrix \<Rightarrow> (nat \<rightharpoonup> matrix) \<Rightarrow> (nat \<rightharpoonup> real list) \<Rightarrow> nat \<Rightarrow> nat list \<Rightarrow> nat list \<Rightarrow> error + matrix" where
  "fit_variance probs weights outcome_binary_est nclass ind_est ind_tr =
     andthen (take_rows probs ind_est) (\<lambda>probs_honest.
     andthen (weights_rows weights ind_est [1..<nclass] Map.empty) (\<lambda>weights_honest.
       if nclass < 2 then Inl UnboundLocalError
       else
         let n_est = length ind_est
         in andthen (honest_variance probs_honest weights_honest outcome_binary_est nclass n_est)
              (\<lambda>variance_honest.
            let n_tr = length ind_tr
            in andthen (take_rows probs ind_tr) (\<lambda>probs_train.
               andthen (weights_rows weights ind_tr [1..<nclass] Map.empty) (\<lambda>weights_train.
               andthen (honest_variance probs_train weights_train outcome_binary_est nclass n_tr)
                 (\<lambda>variance_train.
                  let variance = variance_honest @ variance_train;
                      ind_all = ind_est @ ind_tr
                  in take_rows variance (argsort ind_all)))))))"

section \<open>The fitted estimator and \<open>predict\<close>\<close>

text \<open>
  Python values of the arguments whose type the code inspects with \<open>isinstance\<close>.
\<close>

datatype pyval = PyBool bool | PyInt int | PyFloat real | PyStr string | PyNone

text \<open>
  \<open>self.forest['variance']\<close> is the variance matrix under inference and the empty
  dictionary otherwise; \<open>var_final\<close> of \<open>predict\<close> starts as \<open>None\<close>.
\<close>

datatype variances = NoVariance | EmptyDict | Variances matrix

datatype predictions = Probabilities matrix | Classes "nat list"

text \<open>
  The attributes of the estimator that \<open>predict\<close> and \<open>margin\<close> read, as \<open>fit\<close>
  leaves them: the entries \<open>X_fit\<close>, \<open>probs\<close>, \<open>variance\<close>, \<open>outcome_binary_est\<close> and
  \<open>ind_est\<close> of the dictionary \<open>self.forest\<close>, and the attributes \<open>n_features\<close>,
  \<open>n_class\<close>, \<open>honesty\<close>, \<open>inference\<close> and \<open>prob\<close> (which \<open>predict\<close> sets).
  \<open>ind_est\<close> is \<open>None\<close> without honesty, where it is not read.
\<close>

record orf =
  forest_X_fit :: matrix
  forest_probs :: matrix
  forest_variance :: variances
  forest_outcome_binary_est :: "nat \<rightharpoonup> real list"
  forest_ind_est :: "nat list"
  n_features :: nat
  n_class :: nat
  honesty :: bool
  inference :: bool
  prob :: "bool option"

text \<open>
  What the estimator consumes from scikit-learn and from the fitted forests:
  \<open>check_array\<close> returns the validated array or raises; the three prediction methods
  run the new data through the forests of the tree library.
\<close>

record collaborators =
  check_array :: "matrix \<Rightarrow> error + matrix"
  predict_default :: "matrix \<Rightarrow> nat \<Rightarrow> error + matrix"
  predict_leafmeans :: "matrix \<Rightarrow> nat \<Rightarrow> error + matrix"
  predict_weights :: "matrix \<Rightarrow> nat \<Rightarrow> error + (matrix \<times> (nat \<rightharpoonup> matrix))"

record prediction_result =
  result_prob :: bool
  result_predictions :: predictions
  result_variances :: variances

text \<open>\<open>X.shape[1]\<close> of a validated array, which has at least one row.\<close>

definition ncols :: "matrix \<Rightarrow> nat" where
  "ncols X = (case X of [] \<Rightarrow> 0 | row # _ \<Rightarrow> length row)"

text \<open>
  \<open>probs.argmax(axis=1) + 1\<close>: for every row the first position of its maximum, counted
  from 1; a row without entries raises.
\<close>

definition argmax :: "real list \<Rightarrow> nat" where
  "argmax row = length (takeWhile (\<lambda>x. x \<noteq> Max (set row)) row)"

definition class_predictions :: "matrix \<Rightarrow> error + nat list" where
  "class_predictions probs =
     (if \<exists>row \<in> set probs. row = []
      then Inl (ValueError ''attempt to get argmax of an empty sequence'')
      else Inr (map (\<lambda>row. argmax row + 1) probs))"

text \<open>
  \<open>predict(self, X=None, prob=True)\<close>, for a fitted estimator. The result is the
  returned dictionary together with the estimator, whose attribute \<open>prob\<close> the call
  sets. The warning that the call may print is not modelled.
\<close>

definition predict ::
  "collaborators \<Rightarrow> orf \<Rightarrow> matrix option \<Rightarrow> pyval \<Rightarrow> error + (prediction_result \<times> orf)" where
  "predict ext self X prob_arg =
     andthen
       (case X of
          None \<Rightarrow> Inr (None, length (forest_X_fit self))
        | Some X0 \<Rightarrow>
           andthen (check_array ext X0) (\<lambda>X1.
             if ncols X1 \<noteq> n_features self
             then Inl (ValueError ''Number of features (covariates) should be n_features'')
             else
               let n_samples = length X1
               in if X1 = forest_X_fit self then Inr (None, n_samples) else Inr (Some X1, n_samples)))
       (\<lambda>(X', n_samples).
          case prob_arg of
            PyBool b \<Rightarrow>
              (let self' = self\<lparr>prob := Some b\<rparr>;
                   probs = forest_probs self;
                   variance = forest_variance self;
                   nclass = n_class self
               in case X' of
                    None \<Rightarrow>
                      if b
                      then Inr (\<lparr>result_prob = b, result_predictions = Probabilities probs,
                                 result_variances = variance\<rparr>, self')
                      else andthen (class_predictions probs) (\<lambda>classes.
                             Inr (\<lparr>result_prob = b, result_predictions = Classes classes,
                                   result_variances = NoVariance\<rparr>, self'))
                  | Some X2 \<Rightarrow>
                      andthen
                        (if \<not> honesty self
                         then andthen (predict_default ext X2 n_samples) (\<lambda>p. Inr (p, Map.empty))
                         else if honesty self \<and> \<not> inference self
                         then andthen (predict_leafmeans ext X2 n_samples) (\<lambda>p. Inr (p, Map.empty))
                         else predict_weights ext X2 n_samples)
                        (\<lambda>(probs, weights).
                           andthen (class_probs probs) (\<lambda>cp.
                           andthen (if b then Inr (Probabilities cp)
                                    else andthen (class_predictions cp) (\<lambda>c. Inr (Classes c)))
                             (\<lambda>pred_final.
                           andthen (if inference self \<and> b
                                    then andthen
                                           (honest_variance probs weights (forest_outcome_binary_est self)
                                              nclass (length (forest_ind_est self)))
                                           (\<lambda>v. Inr (Variances v))
                                    else Inr NoVariance)
                             (\<lambda>var_final.
                                Inr (\<lparr>result_prob = b, result_predictions = pred_final,
                                      result_variances = var_final\<rparr>, self'))))))
          | _ \<Rightarrow> Inl (ValueError ''prob must be of type boolean''))"

section \<open>The marginal effects: \<open>margin\<close>\<close>

text \<open>
  \<open>X[:, j]\<close> for a column \<open>j\<close> of the array, and numpy's reductions of a column.
  \<open>np.std(\<dots>, ddof=1)\<close> of fewer than two entries is \<open>nan\<close> (a warning, no exception),
  here \<open>None\<close>. The mean and the median are taken of columns of the evaluation matrix
  after the check for constant covariates, which have at least two entries.
\<close>

definition col :: "nat \<Rightarrow> matrix \<Rightarrow> real list" where
  "col j X = map (\<lambda>row. row ! j) X"

definition np_mean :: "real list \<Rightarrow> real" where
  "np_mean v = sum_list v / real (length v)"

definition np_median :: "real list \<Rightarrow> real" where
  "np_median v =
     (let s = sort v; n = length v
      in if odd n then s ! (n div 2) else (s ! (n div 2 - 1) + s ! (n div 2)) / 2)"

definition np_std_ddof1 :: "real list \<Rightarrow> real option" where
  "np_std_ddof1 v =
     (if length v \<le> 1 then None
      else Some (sqrt (sum_list (map (\<lambda>x. (x - np_mean v)\<^sup>2) v) / (real (length v) - 1))))"

text \<open>
  The number of distinct values of a column, as the code counts them:
  \<^verbatim>\<open>
  X_eval_sort = np.sort(X_eval,axis=0)
  n_unique = (X_eval_sort[1:,:] != X_eval_sort[:-1,:]).sum(axis=0)+1
  \<close>
\<close>

definition n_unique_col :: "real list \<Rightarrow> nat" where
  "n_unique_col v =
     (let X_eval_sort = sort v
      in length (filter (\<lambda>(a, b). a \<noteq> b) (zip (tl X_eval_sort) (butlast X_eval_sort))) + 1)"

text \<open>
  The vectorised arithmetic of \<open>margin\<close> works entry by entry: the entry of a matrix in
  the column \<open>j\<close> meets the entry \<open>j\<close> of each row of column statistics, which the code
  repeats for every row (\<open>np.repeat\<close>).
\<close>

definition entries ::
  "('a \<Rightarrow> real \<Rightarrow> real \<Rightarrow> real \<Rightarrow> 'b) \<Rightarrow> 'a list list \<Rightarrow> real list \<Rightarrow> real list \<Rightarrow> real list \<Rightarrow>
   'b list list" where
  "entries f M a b c =
     map (\<lambda>row. map (\<lambda>(e, x, y, z). f e x y z) (zip row (zip a (zip b c)))) M"

text \<open>
  One entry of \<open>X_up\<close> and \<open>X_down\<close>, from the entry of \<open>X_mean\<close>, of \<open>h_std * X_sd\<close>,
  of \<open>X_max\<close> and of \<open>X_min\<close>; a comparison multiplied with a number is 1 or 0 times
  the number:
  \<^verbatim>\<open>
  X_up = X_mean + h_std*X_sd
  X_down = X_mean - h_std*X_sd
  X_up = (X_up < X_max) * X_up + (X_up >= X_max) * X_max
  X_up = (X_up > X_min) * X_up + (X_up <= X_min) * (X_min + h_std * X_sd)
  X_down = (X_down > X_min) * X_down + (X_down <= X_min) * X_min
  X_down = (X_down < X_max) * X_down + (X_down >= X_max) *(X_max - h_std * X_sd)
  \<close>
\<close>

definition clipped :: "real \<Rightarrow> real \<Rightarrow> real \<Rightarrow> real \<Rightarrow> real \<times> real" where
  "clipped x_mean hsd x_max x_min =
     (let x_up = x_mean + hsd;
          x_down = x_mean - hsd;
          x_up = of_bool (x_up < x_max) * x_up + of_bool (x_up \<ge> x_max) * x_max;
          x_up = of_bool (x_up > x_min) * x_up + of_bool (x_up \<le> x_min) * (x_min + hsd);
          x_down = of_bool (x_down > x_min) * x_down + of_bool (x_down \<le> x_min) * x_min;
          x_down = of_bool (x_down < x_max) * x_down + of_bool (x_down \<ge> x_max) * (x_max - hsd)
      in (x_up, x_down))"

text \<open>
  The same entry under \<open>if (np.any(X_up == X_down))\<close>; the second line reads the
  \<open>X_up\<close> that the first has just assigned:
  \<^verbatim>\<open>
  X_up = (X_up > X_down) * X_up + (X_up == X_down) * (X_up + 0.5 * h_std * X_sd)
  X_down = (X_up > X_down) * X_down + (X_up == X_down) * (X_down - 0.5 * h_std * X_sd)
  X_up = (X_up < X_max) * X_up + (X_up >= X_max) * X_max
  X_down = (X_down > X_min) * X_down + (X_down <= X_min) * X_min
  \<close>
\<close>

definition adjusted :: "real \<times> real \<Rightarrow> real \<Rightarrow> real \<Rightarrow> real \<Rightarrow> real \<times> real" where
  "adjusted up_down hsd x_max x_min =
     (let x_up = fst up_down;
          x_down = snd up_down;
          x_up = of_bool (x_up > x_down) * x_up + of_bool (x_up = x_down) * (x_up + 0.5 * hsd);
          x_down = of_bool (x_up > x_down) * x_down + of_bool (x_up = x_down) * (x_down - 0.5 * hsd);
          x_up = of_bool (x_up < x_max) * x_up + of_bool (x_up \<ge> x_max) * x_max;
          x_down = of_bool (x_down > x_min) * x_down + of_bool (x_down \<le> x_min) * x_min
      in (x_up, x_down))"

text \<open>
  \<open>X_up\<close> and \<open>X_down\<close> as one matrix of pairs: clipped to the observed range, and
  adjusted throughout when any entry of the two coincides.
\<close>

definition up_down_clipped ::
  "real \<Rightarrow> matrix \<Rightarrow> real list \<Rightarrow> real list \<Rightarrow> real list \<Rightarrow> (real \<times> real) list list" where
  "up_down_clipped h_std X_mean X_sd X_max X_min =
     entries clipped X_mean (map (\<lambda>sd. h_std * sd) X_sd) X_max X_min"

definition up_down ::
  "real \<Rightarrow> matrix \<Rightarrow> real list \<Rightarrow> real list \<Rightarrow> real list \<Rightarrow> (real \<times> real) list list" where
  "up_down h_std X_mean X_sd X_max X_min =
     (let X_up_down = up_down_clipped h_std X_mean X_sd X_max X_min
      in if \<exists>row \<in> set X_up_down. \<exists>e \<in> set row. fst e = snd e
         then entries adjusted X_up_down (map (\<lambda>sd. h_std * sd) X_sd) X_max X_min
         else X_up_down)"

text \<open>\<open>M[:, js] = \<dots>\<close>: the entries in the columns \<open>js\<close> are replaced.\<close>

definition set_columns :: "nat list \<Rightarrow> (nat \<Rightarrow> 'a \<Rightarrow> 'a) \<Rightarrow> 'a list list \<Rightarrow> 'a list list" where
  "set_columns js f M =
     map (\<lambda>row. map (\<lambda>(j, e). if j \<in> set js then f j e else e) (zip [0..<length row] row)) M"

text \<open>
  What \<open>margin\<close> has computed when it turns to the forests: the evaluation matrix, the
  two perturbations (an entry \<open>None\<close> is \<open>nan\<close>) and the columns it treats as dummies
  and as categorical.
\<close>

record perturbation =
  pert_X_eval :: matrix
  pert_X_up :: "real option list list"
  pert_X_down :: "real option list list"
  pert_X_dummy :: "nat list"
  pert_X_categorical :: "nat list"

text \<open>The choice of \<open>X_eval\<close> and \<open>X_est\<close>, from \<open>X\<close> after its check.\<close>

definition margin_data :: "orf \<Rightarrow> matrix option \<Rightarrow> error + (matrix \<times> matrix)" where
  "margin_data self X =
     (case X of
        None \<Rightarrow>
          if honesty self
          then andthen (take_rows (forest_X_fit self) (forest_ind_est self)) (\<lambda>X_est.
                 Inr (X_est, X_est))
          else Inr (forest_X_fit self, forest_X_fit self)
      | Some X_new \<Rightarrow>
          if honesty self
          then andthen (take_rows (forest_X_fit self) (forest_ind_est self)) (\<lambda>X_est.
                 Inr (X_new, X_est))
          else Inr (X_new, forest_X_fit self))"

text \<open>
  The evaluation points and the two perturbed matrices, from \<open>X_eval\<close>, \<open>X_est\<close>, the
  evaluation point and the window (the lines from \<open>## Get the evaluation point(s)\<close> to
  \<open># Adjust for categorical variables\<close>). Both matrices have \<open>n_cols\<close> columns.
  \<open>np.max\<close> of an array without rows raises. When \<open>X_est\<close> has a single row every
  standard deviation is \<open>nan\<close>, and so is every entry of \<open>X_up\<close> and \<open>X_down\<close> before
  the columns of the dummies are overwritten (\<open>nan == nan\<close> is false, so the adjustment
  is skipped).
\<close>

definition perturb ::
  "nat \<Rightarrow> string \<Rightarrow> real \<Rightarrow> matrix \<Rightarrow> matrix \<Rightarrow> nat list \<Rightarrow> nat list \<Rightarrow> error + perturbation" where
  "perturb n_cols eval_point h_std X_eval X_est X_dummy X_categorical =
     (let X_mean =
            (if eval_point = ''atmean'' then [map (\<lambda>j. np_mean (col j X_eval)) [0..<n_cols]]
             else if eval_point = ''atmedian''
             then [map (\<lambda>j. np_median (col j X_eval)) [0..<n_cols]]
             else X_eval);
          X_sd = those (map (\<lambda>j. np_std_ddof1 (col j X_est)) [0..<n_cols])
      in if X_est = []
         then Inl (ValueError ''zero-size array to reduction operation maximum which has no identity'')
         else
           let X_max = map (\<lambda>j. Max (set (col j X_est))) [0..<n_cols];
               X_min = map (\<lambda>j. Min (set (col j X_est))) [0..<n_cols];
               X_up_down =
                 (case X_sd of
                    None \<Rightarrow> map (map (\<lambda>_. (None, None))) X_mean
                  | Some sd \<Rightarrow>
                     map (map (\<lambda>e. (Some (fst e), Some (snd e))))
                       (up_down h_std X_mean sd X_max X_min));
               X_up_down =
                 set_columns X_dummy (\<lambda>j e. (Some (Max (set (col j X_eval))), snd e)) X_up_down;
               X_up_down =
                 set_columns X_dummy (\<lambda>j e. (fst e, Some (Min (set (col j X_eval))))) X_up_down;
               X_up_down =
                 set_columns X_categorical
                   (\<lambda>j e. (map_option (\<lambda>x. real_of_int \<lceil>x\<rceil>) (fst e), snd e)) X_up_down;
               X_up_down =
                 set_columns X_categorical
                   (\<lambda>j e. (fst e, map_option (\<lambda>x. x - 1) (fst e))) X_up_down
           in Inr \<lparr>pert_X_eval = X_eval, pert_X_up = map (map fst) X_up_down,
                   pert_X_down = map (map snd) X_up_down, pert_X_dummy = X_dummy,
                   pert_X_categorical = X_categorical\<rparr>)"

definition constant_error :: error where
  "constant_error = ValueError ''Some of the covariates are constant.''"

text \<open>
  The check of \<open>X\<close> at the head of \<open>margin\<close>: new data is validated, must have the
  fitted number of columns, and is replaced by \<open>None\<close> when it equals the matrix of
  \<open>fit\<close>.
\<close>

definition margin_X :: "collaborators \<Rightarrow> orf \<Rightarrow> matrix option \<Rightarrow> error + matrix option" where
  "margin_X ext self X =
     (case X of
        None \<Rightarrow> Inr None
      | Some X0 \<Rightarrow>
         andthen (check_array ext X0) (\<lambda>X1.
           if ncols X1 \<noteq> n_features self
           then Inl (ValueError ''Number of features (covariates) should be n_features'')
           else if X1 = forest_X_fit self then Inr None else Inr (Some X1)))"

text \<open>
  \<open>margin(self, X, eval_point="mean", window=0.1, verbose=True)\<close>, for a fitted
  estimator, up to the predictions: \<open>effects\<close> stands for the rest of the method (the
  predictions of the perturbed matrices by the forests, the class probabilities, the
  scaled differences and their variances), whose result \<open>margin\<close> returns.
\<close>

definition margin ::
  "collaborators \<Rightarrow> (perturbation \<Rightarrow> error + 'r) \<Rightarrow> orf \<Rightarrow> matrix option \<Rightarrow> pyval \<Rightarrow> pyval \<Rightarrow> pyval \<Rightarrow>
   error + 'r" where
  "margin ext effects self X eval_point window verbose =
     andthen (margin_X ext self X)
       (\<lambda>X'.
          case verbose of
            PyBool _ \<Rightarrow>
              (case window of
                 PyFloat w \<Rightarrow>
                   if \<not> (w > 0 \<and> w \<le> 1) then Inl (ValueError ''window must be within (0,1]'')
                   else
                     (case eval_point of
                        PyStr ep \<Rightarrow>
                          if \<not> (ep = ''mean'' \<or> ep = ''atmean'' \<or> ep = ''atmedian'')
                          then Inl (ValueError ''eval_point must be one of mean, atmean or atmedian'')
                          else
                            andthen (margin_data self X') (\<lambda>(X_eval, X_est).
                              let h_std = w;
                                  n_unique = map (\<lambda>j. n_unique_col (col j X_eval))
                                               [0..<n_features self];
                                  X_dummy = filter (\<lambda>j. n_unique ! j = 2) [0..<n_features self];
                                  X_categorical =
                                    filter (\<lambda>j. n_unique ! j > 2 \<and> n_unique ! j \<le> 10)
                                      [0..<n_features self]
                              in if \<exists>n \<in> set n_unique. n \<le> 1 then Inl constant_error
                                 else andthen (perturb (n_features self) ep h_std X_eval X_est
                                                 X_dummy X_categorical) effects)
                      | _ \<Rightarrow> Inl (ValueError ''eval_point must be of type string''))
               | _ \<Rightarrow> Inl (ValueError ''window must be a float''))
          | _ \<Rightarrow> Inl (ValueError ''verbose must be of type boolean''))"

text \<open>A matrix of \<open>n\<close> rows with \<open>m\<close> entries each.\<close>

definition shape :: "nat \<Rightarrow> nat \<Rightarrow> matrix \<Rightarrow> bool" where
  "shape n m M \<longleftrightarrow> length M = n \<and> (\<forall>row \<in> set M. length row = m)"

section \<open>Properties of the class probabilities\<close>

lemma sum_diff_row: "sum_list (map2 (-) (row @ [b]) (a # row)) = b - (a::real)"
  by (induction row arbitrary: a) simp_all

lemma sum_clip_ge: "sum_list xs \<le> sum_list (map (\<lambda>x. if x < 0 then 0 else x) xs)"
  for xs :: "real list"
  by (induction xs) auto

lemma clipped_row_sum_ge_1:
  "1 \<le> sum_list (map (\<lambda>x. if x < 0 then 0 else x) (map2 (-) (row @ [1::real]) (0 # row)))"
  using sum_clip_ge [of "map2 (-) (row @ [1]) (0 # row)"] sum_diff_row [of row 1 0]
  by simp

lemma clipped_rows:
  "clip_negative (class_probs_diff probs) =
     map (\<lambda>row. map (\<lambda>x. if x < 0 then 0 else x) (map2 (-) (row @ [1]) (0 # row))) probs"
  by (simp add: clip_negative_def class_probs_diff_def probs_0_def probs_1_def
      map2_map_map zip_same_conv_map)

lemma clipped_sum_ge_1:
  "row \<in> set (clip_negative (class_probs_diff probs)) \<Longrightarrow> 1 \<le> sum_list row"
  unfolding clipped_rows using clipped_row_sum_ge_1 by auto

lemma class_probs_returns:
  "class_probs probs =
     Inr (map (\<lambda>row. map (\<lambda>x. x / sum_list row) row) (clip_negative (class_probs_diff probs)))"
proof -
  have "\<not> (\<exists>row \<in> set (clip_negative (class_probs_diff probs)). row \<noteq> [] \<and> sum_list row = 0)"
    using clipped_sum_ge_1 [of _ probs] by force
  then show ?thesis
    by (simp add: class_probs_def normalize_rows_def)
qed

text \<open>
  C7. The single row of cumulative probabilities \<open>[0.9, 0.3]\<close> (three classes) has the
  first differences \<open>[0.9, -0.6, 0.7]\<close>, the negative one is set to zero, and the row is
  divided by its sum \<open>1.6\<close>: the class probabilities are \<open>[0.9/1.6, 0, 0.7/1.6]\<close>.
\<close>

theorem class_probs_nonmonotonic_scenario:
  "class_probs_diff [[9/10, 3/10]] = [[9/10, - (6/10), 7/10]]
   \<and> clip_negative (class_probs_diff [[9/10, 3/10]]) = [[9/10, 0, 7/10]]
   \<and> class_probs [[9/10, 3/10]] = Inr [[(9/10) / (16/10), 0, (7/10) / (16/10)]]"
  by (simp add: class_probs_def normalize_rows_def clip_negative_def class_probs_diff_def
      probs_0_def probs_1_def)

section \<open>Properties of the weights\<close>


lemma set_np_unique: "set (np_unique xs) = set xs"
  by (simp add: np_unique_def)

lemma distinct_np_unique: "distinct (np_unique xs)"
  by (simp add: np_unique_def)

lemma np_unique_cong: "set xs = set ys \<Longrightarrow> np_unique xs = np_unique ys"
  by (metis np_unique_def sorted_list_of_set_sort_remdups)

lemma np_unique_Nil: "np_unique xs = [] \<longleftrightarrow> xs = []"
  by (metis set_np_unique set_empty)

lemma set_np_setdiff1d: "set (np_setdiff1d a b) = set a - set b"
  by (auto simp: np_setdiff1d_def set_np_unique)

lemma distinct_np_setdiff1d: "distinct (np_setdiff1d a b)"
  by (simp add: np_setdiff1d_def distinct_np_unique)

lemma onehot_rows_dot:
  "distinct U \<Longrightarrow>
   sum_list (map2 (*) (map (\<lambda>c. if x = c then 1 else 0) U) (map (\<lambda>c. if y = c then 1 else 0) U))
     = (if x = y \<and> x \<in> set U then 1 else (0::real))"
  by (induction U) (auto simp: zip_map_map)

lemma transpose_transpose_rect:
  assumes "xs \<noteq> []" and "0 < n" and "\<forall>x \<in> set xs. length x = n"
  shows "transpose (transpose xs) = xs" and "length (transpose xs) = n"
proof -
  have len: "map length xs = replicate (length xs) n"
    using assms(3) by (simp add: map_replicate_const[symmetric] cong: map_cong)
  have srt: "sorted (rev (map length xs))"
    by (simp add: len)
  have "takeWhile (\<lambda>x. x \<noteq> []) xs = xs"
    using assms(2,3) by (auto simp: takeWhile_eq_all_conv)
  with transpose_transpose [OF srt] show "transpose (transpose xs) = xs" by simp
  from length_transpose_sorted [OF srt] assms show "length (transpose xs) = n"
    by (cases xs) auto
qed

lemma sum_delta_count:
  "sum_list (map (\<lambda>y. if x = y then 1 else 0) ys) = real (count_list ys x)"
  by (induction ys) auto

lemma count_list_distinct:
  "distinct ys \<Longrightarrow> count_list ys x = (if x \<in> set ys then 1 else 0)"
  by (induction ys) auto


lemma dot_onehot:
  assumes "hs \<noteq> []" and U: "np_unique hs = np_unique as"
  shows "dot (map (\<lambda>x. map (\<lambda>c. if x = c then 1 else 0) (np_unique as)) xs)
             (transpose (map (\<lambda>y. map (\<lambda>c. if y = c then 1 else 0) (np_unique hs)) hs))
         = Inr (map (\<lambda>x. map (\<lambda>y. if x = y then 1 else 0) hs) xs)"
proof -
  let ?oh = "map (\<lambda>y. map (\<lambda>c. if y = c then 1 else (0::real)) (np_unique hs)) hs"
  have ne: "?oh \<noteq> []" using assms(1) by simp
  have pos: "0 < length (np_unique hs)"
    using assms(1) by (simp add: np_unique_Nil)
  have rect: "\<forall>r \<in> set ?oh. length r = length (np_unique hs)" by auto
  have tt: "transpose (transpose ?oh) = ?oh"
    and lt: "length (transpose ?oh) = length (np_unique hs)"
    using transpose_transpose_rect [OF ne pos rect] by blast+
  have dims: "\<not> (\<exists>a \<in> set (map (\<lambda>x. map (\<lambda>c. if x = c then 1 else (0::real)) (np_unique as)) xs).
                 length a \<noteq> length (transpose ?oh))"
    by (auto simp: lt U [symmetric])
  have entry: "sum_list (map2 (*) (map (\<lambda>c. if x = c then 1 else 0) (np_unique as))
                                   (map (\<lambda>c. if y = c then 1 else 0) (np_unique hs)))
               = (if x = y then 1 else (0::real))" if "y \<in> set hs" for x y
    using onehot_rows_dot [OF distinct_np_unique, of x as y] that
    by (simp add: U [symmetric] set_np_unique)
  show ?thesis
    unfolding dot_def tt using dims
    by (simp add: entry cong: map_cong)
qed

lemma divide_rows_ok:
  assumes "length sizes = length M" and "\<forall>s \<in> set sizes. s \<noteq> 0"
  shows "divide_rows M sizes = Inr (map2 (\<lambda>row s. map (\<lambda>x. x / s) row) M sizes)"
  using assms by (auto simp: divide_rows_def dest: set_zip_rightD)

lemma weight_row:
  assumes "cnt = count_list hs x + (if x \<in> set hs then 0 else Suc 0)"
  shows "map (\<lambda>v. v / real cnt) (map (\<lambda>y. if x = y then 1 else 0) hs)
         = map (\<lambda>y. if x = y then 1 / real (count_list hs x) else 0) hs"
  using assms by (auto simp: count_list_0_iff)

lemma tree_weight_closed_form:
  assumes ns: "n_samples = length leaf_IDs_all" and ne: "n_est = length leaf_IDs_honest"
    and nonempty: "leaf_IDs_honest \<noteq> [] \<or> leaf_IDs_all \<noteq> []"
  shows "tree_weight leaf_IDs_honest leaf_IDs_all n_samples n_est =
           Inr (map (\<lambda>x. map (\<lambda>y. if x = y then 1 / real (count_list leaf_IDs_honest x) else 0)
                            leaf_IDs_honest) leaf_IDs_all)"
proof (cases "np_unique leaf_IDs_honest = np_unique leaf_IDs_all")
  case True
  then have sets: "set leaf_IDs_honest = set leaf_IDs_all"
    by (metis set_np_unique)
  with nonempty have h: "leaf_IDs_honest \<noteq> []" and a: "leaf_IDs_all \<noteq> []" by auto
  let ?T = "map (\<lambda>x. map (\<lambda>y. if x = y then 1 else (0::real)) leaf_IDs_honest) leaf_IDs_all"
  have d: "dot (take n_samples (map (\<lambda>x. map (\<lambda>c. if x = c then 1 else 0) (np_unique leaf_IDs_all)) leaf_IDs_all))
             (transpose (map (\<lambda>y. map (\<lambda>c. if y = c then 1 else 0) (np_unique leaf_IDs_honest)) leaf_IDs_honest))
           = Inr ?T"
    using dot_onehot [OF h True, of leaf_IDs_all] by (simp add: ns)
  have sizes: "map sum_list ?T = map (\<lambda>x. real (count_list leaf_IDs_honest x)) leaf_IDs_all"
    by (simp add: sum_delta_count comp_def)
  have nz: "\<forall>s \<in> set (map sum_list ?T). s \<noteq> 0"
    unfolding sizes using sets by (auto simp: count_list_0_iff)
  have "divide_rows ?T (map sum_list ?T) = Inr (map2 (\<lambda>row s. map (\<lambda>x. x / s) row) ?T (map sum_list ?T))"
    by (rule divide_rows_ok [OF _ nz]) simp
  also have "map2 (\<lambda>row s. map (\<lambda>x. x / s) row) ?T (map sum_list ?T)
             = map (\<lambda>x. map (\<lambda>y. if x = y then 1 / real (count_list leaf_IDs_honest x) else 0)
                            leaf_IDs_honest) leaf_IDs_all"
    unfolding sizes using sets
    by (auto simp: zip_map_map zip_same_conv_map intro!: weight_row [unfolded map_map comp_def])
  finally show ?thesis
    using True h a d by (simp add: tree_weight_def onehot_def Let_def)
next
  case False
  let ?hx = "leaf_IDs_honest @ np_setdiff1d (np_unique leaf_IDs_all) (np_unique leaf_IDs_honest)"
  let ?ax = "leaf_IDs_all @ np_setdiff1d (np_unique leaf_IDs_honest) (np_unique leaf_IDs_all)"
  have seth: "set ?hx = set leaf_IDs_honest \<union> set leaf_IDs_all"
    and seta: "set ?ax = set leaf_IDs_honest \<union> set leaf_IDs_all"
    by (auto simp: set_np_setdiff1d set_np_unique)
  have U: "np_unique ?hx = np_unique ?ax"
    by (rule np_unique_cong) (simp only: seth seta)
  have h: "?hx \<noteq> []" and a: "?ax \<noteq> []"
    using nonempty seth seta by (metis Un_empty set_empty)+
  let ?T = "map (\<lambda>x. map (\<lambda>y. if x = y then 1 else (0::real)) ?hx) leaf_IDs_all"
  have d: "dot (take n_samples (map (\<lambda>x. map (\<lambda>c. if x = c then 1 else 0) (np_unique ?ax)) ?ax))
             (transpose (map (\<lambda>y. map (\<lambda>c. if y = c then 1 else 0) (np_unique ?hx)) ?hx))
           = Inr ?T"
    using dot_onehot [OF h U, of leaf_IDs_all] by (simp add: ns)
  have cnt: "count_list ?hx x = count_list leaf_IDs_honest x + (if x \<in> set leaf_IDs_honest then 0 else Suc 0)"
    if "x \<in> set leaf_IDs_all" for x
    using that
    by (simp add: count_list_distinct [OF distinct_np_setdiff1d] set_np_setdiff1d set_np_unique)
  have sizes: "map sum_list ?T = map (\<lambda>x. real (count_list ?hx x)) leaf_IDs_all"
    by (simp add: sum_delta_count comp_def)
  have nz: "\<forall>s \<in> set (map sum_list ?T). s \<noteq> 0"
    unfolding sizes using seth by (auto simp: count_list_0_iff simp del: count_list_append)
  let ?T' = "map (take n_est) (take n_samples ?T)"
  have T': "?T' = map (\<lambda>x. map (\<lambda>y. if x = y then 1 else (0::real)) leaf_IDs_honest) leaf_IDs_all"
    by (simp add: ns ne take_map comp_def)
  have "divide_rows ?T' (map sum_list ?T) = Inr (map2 (\<lambda>row s. map (\<lambda>x. x / s) row) ?T' (map sum_list ?T))"
    by (rule divide_rows_ok [OF _ nz]) (simp add: ns)
  also have "map2 (\<lambda>row s. map (\<lambda>x. x / s) row) ?T' (map sum_list ?T)
             = map (\<lambda>x. map (\<lambda>y. if x = y then 1 / real (count_list leaf_IDs_honest x) else 0)
                            leaf_IDs_honest) leaf_IDs_all"
  proof -
    have row: "map (\<lambda>v. v / real (count_list ?hx x)) (map (\<lambda>y. if x = y then 1 else 0) leaf_IDs_honest)
               = map (\<lambda>y. if x = y then 1 / real (count_list leaf_IDs_honest x) else 0) leaf_IDs_honest"
      if "x \<in> set leaf_IDs_all" for x
      by (rule weight_row) (rule cnt [OF that])
    show ?thesis
      unfolding sizes T'
      by (simp add: zip_map_map zip_same_conv_map row [unfolded map_map comp_def]
          del: count_list_append cong: map_cong)
  qed
  finally show ?thesis
    using False h a d by (simp add: tree_weight_def onehot_def Let_def)
qed



lemma tree_weight_shape:
  assumes "tree_weight hs as (length as) (length hs) = Inr W"
  shows "length W = length as \<and> (\<forall>row \<in> set W. length row = length hs)"
proof (cases "hs \<noteq> [] \<or> as \<noteq> []")
  case True
  from tree_weight_closed_form [OF refl refl True] assms show ?thesis by auto
next
  case False
  with assms show ?thesis by (simp add: tree_weight_def onehot_def Let_def)
qed

lemma length_column: "column tree M = Inr v \<Longrightarrow> length v = length M"
  by (auto simp: column_def split: if_splits)

lemma honest_weight_numpy_shape:
  assumes "honest_weight_numpy tree fa faa (length faa) (length fa) = Inr W"
  shows "length W = length faa \<and> (\<forall>row \<in> set W. length row = length fa)"
proof -
  from assms obtain hs as where h: "column tree fa = Inr hs" and a: "column tree faa = Inr as"
    and w: "tree_weight hs as (length faa) (length fa) = Inr W"
    by (auto simp: honest_weight_numpy_def split: sum.splits)
  from length_column [OF h] length_column [OF a] w
  have "tree_weight hs as (length as) (length hs) = Inr W" by simp
  from tree_weight_shape [OF this] length_column [OF h] length_column [OF a]
  show ?thesis by simp
qed


lemma numpy_loop_pool_map:
  "numpy_loop fa faa n m trees acc =
     (case pool_map (\<lambda>t. honest_weight_numpy t fa faa n m) trees of
        Inl e \<Rightarrow> Inl e
      | Inr Ms \<Rightarrow> Inr (foldl madd acc Ms))"
  by (induction trees arbitrary: acc) (auto split: sum.splits)

lemma pool_map_results:
  "pool_map f ts = Inr ys \<Longrightarrow> length ys = length ts \<and> (\<forall>y \<in> set ys. \<exists>t \<in> set ts. f t = Inr y)"
  by (induction ts arbitrary: ys) (auto split: sum.splits)

lemma madd_nth:
  assumes "shape n m A" "shape n m B" "i < n" "j < m"
  shows "madd A B ! i ! j = A ! i ! j + B ! i ! j"
  using assms by (simp add: madd_def shape_def)

lemma madd_shape:
  assumes "shape n m A" "shape n m B"
  shows "shape n m (madd A B)"
proof -
  have "length a = m \<and> length b = m" if "(a, b) \<in> set (zip A B)" for a b
    using that assms set_zip_leftD [OF that] set_zip_rightD [OF that] by (simp add: shape_def)
  then show ?thesis
    using assms by (auto simp: madd_def shape_def)
qed

lemma matrix_eqI:
  assumes "shape n m A" "shape n m B" "\<And>i j. i < n \<Longrightarrow> j < m \<Longrightarrow> A ! i ! j = B ! i ! j"
  shows "A = B"
  using assms by (auto simp: shape_def intro!: nth_equalityI)

lemma foldl_madd:
  assumes "shape n m acc" "\<forall>M \<in> set Ms. shape n m M"
  shows "foldl madd acc Ms =
           map (\<lambda>i. map (\<lambda>j. acc ! i ! j + sum_list (map (\<lambda>T. T ! i ! j) Ms)) [0..<m]) [0..<n]"
  using assms
proof (induction Ms arbitrary: acc)
  case Nil
  show ?case
    by (rule matrix_eqI [of n m]) (use Nil in \<open>auto simp: shape_def\<close>)
next
  case (Cons M Ms)
  then have M: "shape n m M" and Ms: "\<forall>M \<in> set Ms. shape n m M" by auto
  have "foldl madd (madd acc M) Ms =
        map (\<lambda>i. map (\<lambda>j. madd acc M ! i ! j + sum_list (map (\<lambda>T. T ! i ! j) Ms)) [0..<m]) [0..<n]"
    by (rule Cons.IH [OF madd_shape [OF Cons.prems(1) M] Ms])
  also have "\<dots> = map (\<lambda>i. map (\<lambda>j. acc ! i ! j + sum_list (map (\<lambda>T. T ! i ! j) (M # Ms))) [0..<m]) [0..<n]"
    by (simp add: madd_nth [OF Cons.prems(1) M] add.assoc)
  finally show ?case by simp
qed

lemma sum_axis0_shape:
  assumes "shape n m M"
  shows "sum_axis0 (M # Ms) =
           map (\<lambda>i. map (\<lambda>j. sum_list (map (\<lambda>T. T ! i ! j) (M # Ms))) [0..<m]) [0..<n]"
  using assms by (simp add: sum_axis0_def shape_def)

lemma zeros_shape: "shape n m (zeros n m)"
  by (simp add: zeros_def shape_def)

lemma foldl_madd_zeros:
  assumes "\<forall>M \<in> set Ms. shape n m M" "Ms \<noteq> []"
  shows "foldl madd (zeros n m) Ms = sum_axis0 Ms"
proof -
  from assms(2) obtain M Ms' where Ms: "Ms = M # Ms'" by (cases Ms) auto
  with assms(1) have M: "shape n m M" by simp
  have "foldl madd (zeros n m) Ms =
          map (\<lambda>i. map (\<lambda>j. zeros n m ! i ! j + sum_list (map (\<lambda>T. T ! i ! j) Ms)) [0..<m]) [0..<n]"
    by (rule foldl_madd [OF zeros_shape assms(1)])
  also have "\<dots> = map (\<lambda>i. map (\<lambda>j. sum_list (map (\<lambda>T. T ! i ! j) Ms)) [0..<m]) [0..<n]"
    by (simp add: zeros_def)
  also have "\<dots> = sum_axis0 Ms"
    unfolding Ms by (rule sum_axis0_shape [OF M, symmetric])
  finally show ?thesis .
qed

text \<open>
  C5. For the same leaf identifiers and the same number of trees, the sequential
  accumulation (\<open>numpy_loop\<close>) and the map over a worker pool followed by a sum
  (\<open>numpy_loop_mpire\<close>) give the same forest weights, the sum of the trees' weights
  divided by the number of trees; over exact arithmetic the two results are equal (and
  so is the exception, when a tree raises one).
\<close>

theorem fit_weights_strategies_agree:
  "fit_weights_numpy_loop forest_apply forest_apply_all n_estimators =
   fit_weights_numpy_loop_mpire forest_apply forest_apply_all n_estimators"
proof (cases "n_estimators < 1")
  case True
  then show ?thesis
    by (simp add: fit_weights_numpy_loop_def fit_weights_numpy_loop_mpire_def)
next
  case False
  let ?n = "length forest_apply_all" and ?m = "length forest_apply"
  let ?f = "\<lambda>tree. honest_weight_numpy tree forest_apply forest_apply_all ?n ?m"
  show ?thesis
  proof (cases "pool_map ?f [0..<n_estimators]")
    case (Inl e)
    then show ?thesis
      by (simp add: fit_weights_numpy_loop_def fit_weights_numpy_loop_mpire_def
          numpy_loop_pool_map Let_def)
  next
    case (Inr Ms)
    from pool_map_results [OF Inr] False have ne: "Ms \<noteq> []" by auto
    have sh: "\<forall>M \<in> set Ms. shape ?n ?m M"
      using pool_map_results [OF Inr] honest_weight_numpy_shape
      by (fastforce simp: shape_def)
    show ?thesis
      using Inr foldl_madd_zeros [OF sh ne]
      by (simp add: fit_weights_numpy_loop_def fit_weights_numpy_loop_mpire_def
          numpy_loop_pool_map Let_def)
  qed
qed


lemma sum_list_divide: "sum_list (map (\<lambda>x. x / c) xs) = sum_list xs / (c::real)"
  by (induction xs) (simp_all add: add_divide_distrib)

lemma sum_scaled_delta:
  "sum_list (map (\<lambda>y. if x = y then c else 0) ys) = real (count_list ys x) * c"
  by (induction ys) (auto simp: algebra_simps)

lemma round_half_even_error: "\<bar>of_int (round_half_even q) - q\<bar> \<le> 1/2"
  unfolding round_half_even_def Let_def by (auto; linarith)

lemma float64_zero: "float64 0 = 0"
  by (simp add: float64_def)

lemma float64_error: "\<bar>float64 x - x\<bar> \<le> \<bar>x\<bar> / 2 ^ 53"
proof (cases "x = 0")
  case True
  then show ?thesis by (simp add: float64_def)
next
  case False
  define e where "e = \<lfloor>log 2 \<bar>x\<bar>\<rfloor>"
  define ulp :: real where "ulp = 2 powr (of_int e - 52)"
  have pos: "0 < ulp" by (simp add: ulp_def)
  have "of_int e \<le> log 2 \<bar>x\<bar>" by (simp add: e_def)
  then have le: "2 powr (of_int e) \<le> \<bar>x\<bar>"
    using False by (simp add: le_log_iff)
  have ulp_eq: "ulp = 2 powr (of_int e) / 2 ^ 52"
    by (simp add: ulp_def powr_diff)
  have f: "float64 x = of_int (round_half_even (x / ulp)) * ulp"
    using False by (simp add: float64_def e_def ulp_def Let_def)
  have "float64 x - x = (of_int (round_half_even (x / ulp)) - x / ulp) * ulp"
    using pos by (simp add: f field_simps)
  then have "\<bar>float64 x - x\<bar> = \<bar>of_int (round_half_even (x / ulp)) - x / ulp\<bar> * ulp"
    using pos by (simp add: abs_mult)
  also have "\<dots> \<le> (1/2) * ulp"
    using round_half_even_error [of "x / ulp"] pos by (simp add: mult_right_mono)
  also have "\<dots> = 2 powr (of_int e) / 2 ^ 53"
    by (simp add: ulp_eq)
  also have "\<dots> \<le> \<bar>x\<bar> / 2 ^ 53"
    using le by (simp add: divide_right_mono)
  finally show ?thesis .
qed

lemma float64_sixth: "float64 (1/6) = 6004799503160661 / 2 ^ 55"
proof -
  have "2 powr (-3) \<le> (1/6 :: real) \<and> (1/6 :: real) < 2 powr (-2)"
    by (simp add: powr_minus)
  then have e: "\<lfloor>log 2 \<bar>1/6 :: real\<bar>\<rfloor> = -3"
    using floor_log_eq_powr_iff [of "1/6" 2 "-3"] by simp
  have "(2::real) powr (- 55) = 1 / 2 powr 55"
    by (rule powr_minus_divide)
  then have u: "2 powr (of_int (-3) - 52) = (1 / 2 ^ 55 :: real)"
    by simp
  show ?thesis
    unfolding float64_def e Let_def u
    by (simp add: round_half_even_def Let_def)
qed

lemma divide_rows_float64_rounds:
  "divide_rows_float64 M sizes =
     (case divide_rows M sizes of Inl e \<Rightarrow> Inl e | Inr W \<Rightarrow> Inr (map (map float64) W))"
  by (simp add: divide_rows_float64_def divide_rows_def comp_def case_prod_unfold)

lemma tree_weight_float64_rounds:
  "tree_weight_float64 hs as n m =
     (case tree_weight hs as n m of Inl e \<Rightarrow> Inl e | Inr W \<Rightarrow> Inr (map (map float64) W))"
  by (simp add: tree_weight_float64_def tree_weight_def Let_def divide_rows_float64_rounds
      split: sum.splits)

lemma tree_weight_float64_closed_form:
  assumes ns: "n_samples = length leaf_IDs_all" and ne: "n_est = length leaf_IDs_honest"
    and nonempty: "leaf_IDs_honest \<noteq> [] \<or> leaf_IDs_all \<noteq> []"
  shows "tree_weight_float64 leaf_IDs_honest leaf_IDs_all n_samples n_est =
           Inr (map (\<lambda>x. map (\<lambda>y. if x = y then float64 (1 / real (count_list leaf_IDs_honest x))
                                    else 0)
                            leaf_IDs_honest) leaf_IDs_all)"
  unfolding tree_weight_float64_rounds tree_weight_closed_form [OF assms]
  by (simp add: comp_def float64_zero if_distrib [of float64] cong: if_cong)

lemma float64_reciprocal_sum:
  assumes "0 < k"
  shows "\<bar>real k * float64 (1 / real k) - 1\<bar> \<le> 1 / 2 ^ 53"
proof -
  have "real k * float64 (1 / real k) - 1 = real k * (float64 (1 / real k) - 1 / real k)"
    using assms by (simp add: algebra_simps)
  then have "\<bar>real k * float64 (1 / real k) - 1\<bar> = real k * \<bar>float64 (1 / real k) - 1 / real k\<bar>"
    by (simp add: abs_mult)
  also have "\<dots> \<le> real k * (\<bar>1 / real k\<bar> / 2 ^ 53)"
    by (rule mult_left_mono [OF float64_error]) simp
  also have "\<dots> = 1 / 2 ^ 53"
    using assms by simp
  finally show ?thesis .
qed

text \<open>
  C1 (as amended). For the leaf identifiers of one tree in the honest sample and in the
  evaluation sample, with fewer than \<open>2^53\<close> honest observations,
  \<open>honest_weight_numpy\<close> returns a matrix (no division by zero, no exception) with one
  row per evaluation observation and one entry per honest observation. An entry is the
  float64 number nearest to \<open>1/k\<close> where the two observations share a leaf that holds
  \<open>k\<close> honest observations, and zero elsewhere. A row whose leaf holds an honest
  observation sums to 1 up to the rounding of the quotient: the exact sum of its
  entries is within \<open>2^-53\<close> of 1, and the exact quotients, of which the entries are
  the roundings, sum to exactly 1. A row whose leaf holds no honest observation is zero
  throughout (sum 0).
\<close>

theorem honest_weight_numpy_row_sums_float64:
  assumes h: "column tree forest_apply = Inr leaf_IDs_honest"
    and a: "column tree forest_apply_all = Inr leaf_IDs_all"
    and ns: "n_samples = length forest_apply_all" and ne: "n_est = length forest_apply"
    and nonempty: "leaf_IDs_honest \<noteq> [] \<or> leaf_IDs_all \<noteq> []"
    and size: "n_est < 2 ^ 53"
  shows "\<exists>W. honest_weight_numpy_float64 tree forest_apply forest_apply_all n_samples n_est = Inr W
           \<and> length W = n_samples
           \<and> (\<forall>i < n_samples.
                 length (W ! i) = n_est
                 \<and> (\<forall>j < n_est.
                       W ! i ! j =
                         (if leaf_IDs_all ! i = leaf_IDs_honest ! j
                          then float64 (1 / real (count_list leaf_IDs_honest (leaf_IDs_all ! i)))
                          else 0))
                 \<and> (leaf_IDs_all ! i \<in> set leaf_IDs_honest \<longrightarrow>
                       \<bar>sum_list (W ! i) - 1\<bar> \<le> 1 / 2 ^ 53)
                 \<and> (leaf_IDs_all ! i \<notin> set leaf_IDs_honest \<longrightarrow>
                      sum_list (W ! i) = 0 \<and> (\<forall>w \<in> set (W ! i). w = 0)))
           \<and> (\<exists>V. honest_weight_numpy tree forest_apply forest_apply_all n_samples n_est = Inr V
                  \<and> W = map (map float64) V
                  \<and> (\<forall>i < n_samples. leaf_IDs_all ! i \<in> set leaf_IDs_honest \<longrightarrow>
                         sum_list (V ! i) = 1))"
proof -
  let ?V = "map (\<lambda>x. map (\<lambda>y. if x = y then 1 / real (count_list leaf_IDs_honest x) else 0)
                          leaf_IDs_honest) leaf_IDs_all"
  let ?W = "map (\<lambda>x. map (\<lambda>y. if x = y then float64 (1 / real (count_list leaf_IDs_honest x))
                                   else 0)
                          leaf_IDs_honest) leaf_IDs_all"
  have ns': "n_samples = length leaf_IDs_all" and ne': "n_est = length leaf_IDs_honest"
    using length_column [OF h] length_column [OF a] ns ne by simp_all
  have W: "honest_weight_numpy_float64 tree forest_apply forest_apply_all n_samples n_est = Inr ?W"
    using tree_weight_float64_closed_form [OF ns' ne' nonempty] h a
    by (simp add: honest_weight_numpy_float64_def)
  have len: "length ?W = n_samples" by (simp add: ns')
  have rows: "length (?W ! i) = n_est" if "i < n_samples" for i
    using that by (simp add: ns' ne')
  have entry: "?W ! i ! j =
                 (if leaf_IDs_all ! i = leaf_IDs_honest ! j
                  then float64 (1 / real (count_list leaf_IDs_honest (leaf_IDs_all ! i)))
                  else 0)"
    if "i < n_samples" "j < n_est" for i j
    using that by (simp add: ns' ne')
  have one: "\<bar>sum_list (?W ! i) - 1\<bar> \<le> 1 / 2 ^ 53"
    if "i < n_samples" "leaf_IDs_all ! i \<in> set leaf_IDs_honest" for i
  proof -
    from that(2) have "0 < count_list leaf_IDs_honest (leaf_IDs_all ! i)"
      using count_list_0_iff [of leaf_IDs_honest "leaf_IDs_all ! i"] by simp
    from float64_reciprocal_sum [OF this] that(1) show ?thesis
      by (simp add: ns' sum_scaled_delta)
  qed
  have zero: "sum_list (?W ! i) = 0 \<and> (\<forall>w \<in> set (?W ! i). w = 0)"
    if "i < n_samples" "leaf_IDs_all ! i \<notin> set leaf_IDs_honest" for i
    using that by (auto simp: ns' sum_scaled_delta count_list_0_iff)
  have V: "honest_weight_numpy tree forest_apply forest_apply_all n_samples n_est = Inr ?V"
    using tree_weight_closed_form [OF ns' ne' nonempty] h a
    by (simp add: honest_weight_numpy_def)
  have WV: "?W = map (map float64) ?V"
    by (simp add: comp_def float64_zero if_distrib [of float64] cong: if_cong)
  have exact: "sum_list (?V ! i) = 1"
    if "i < n_samples" "leaf_IDs_all ! i \<in> set leaf_IDs_honest" for i
    using that by (simp add: ns' sum_scaled_delta count_list_0_iff)
  have "\<exists>V. honest_weight_numpy tree forest_apply forest_apply_all n_samples n_est = Inr V
          \<and> ?W = map (map float64) V
          \<and> (\<forall>i < n_samples. leaf_IDs_all ! i \<in> set leaf_IDs_honest \<longrightarrow> sum_list (V ! i) = 1)"
    using V WV exact by blast
  with W len rows entry one zero show ?thesis
    by blast
qed

theorem honest_weight_numpy_row_sums_float64_witness:
  "column 0 [[0], [0], [1]] = Inr [0, 0, 1] \<and> column 0 [[0], [2]] = Inr [0, 2]
   \<and> (\<exists>W. honest_weight_numpy_float64 0 [[0], [0], [1]] [[0], [2]] 2 3 = Inr W
           \<and> length W = 2
           \<and> (\<forall>i < 2.
                 length (W ! i) = 3
                 \<and> ([0, 2 :: int] ! i \<in> set [0, 0, 1] \<longrightarrow> \<bar>sum_list (W ! i) - 1\<bar> \<le> 1 / 2 ^ 53)
                 \<and> ([0, 2 :: int] ! i \<notin> set [0, 0, 1] \<longrightarrow>
                      sum_list (W ! i) = 0 \<and> (\<forall>w \<in> set (W ! i). w = 0))))"
proof -
  have h: "column 0 [[0], [0], [1]] = Inr [0, 0, 1]" and a: "column 0 [[0], [2]] = Inr [0, 2]"
    by (simp_all add: column_def)
  from honest_weight_numpy_row_sums_float64 [OF h a, of 2 3] obtain W where
    "honest_weight_numpy_float64 0 [[0], [0], [1]] [[0], [2]] 2 3 = Inr W \<and> length W = 2
     \<and> (\<forall>i < 2.
           length (W ! i) = 3
           \<and> ([0, 2 :: int] ! i \<in> set [0, 0, 1] \<longrightarrow> \<bar>sum_list (W ! i) - 1\<bar> \<le> 1 / 2 ^ 53)
           \<and> ([0, 2 :: int] ! i \<notin> set [0, 0, 1] \<longrightarrow>
                sum_list (W ! i) = 0 \<and> (\<forall>w \<in> set (W ! i). w = 0)))"
    by auto
  with h a show ?thesis by blast
qed

text \<open>
  C1 as stated fails: with six honest observations and one evaluation observation in
  one leaf, every entry of the row is the float64 number nearest to \<open>1/6\<close>, which is
  \<open>6004799503160661 / 2^55\<close> (printed \<open>0.16666666666666666\<close>), and the six entries
  sum to \<open>1 - 2^-54\<close>, not to 1.
\<close>

theorem honest_weight_numpy_row_sum_counterexample:
  "column 0 [[0], [0], [0], [0], [0], [0]] = Inr [0, 0, 0, 0, 0, 0 :: int]
   \<and> column 0 [[0]] = Inr [0 :: int]
   \<and> honest_weight_numpy_float64 0 [[0], [0], [0], [0], [0], [0]] [[0]] 1 6 =
       Inr [replicate 6 (6004799503160661 / 2 ^ 55)]
   \<and> sum_list (replicate 6 (6004799503160661 / 2 ^ 55 :: real)) = 1 - 1 / 2 ^ 54
   \<and> sum_list (replicate 6 (6004799503160661 / 2 ^ 55 :: real)) \<noteq> 1"
proof -
  have h: "column 0 [[0], [0], [0], [0], [0], [0]] = Inr [0, 0, 0, 0, 0, 0 :: int]"
    and a: "column 0 [[0]] = Inr [0 :: int]"
    by (simp_all add: column_def)
  have "tree_weight_float64 [0, 0, 0, 0, 0, 0] [0] 1 6 =
          Inr [replicate 6 (float64 (1 / 6))]"
    by (simp add: tree_weight_float64_closed_form numeral_eq_Suc)
  then have w: "honest_weight_numpy_float64 0 [[0], [0], [0], [0], [0], [0]] [[0]] 1 6 =
       Inr [replicate 6 (6004799503160661 / 2 ^ 55)]"
    by (simp add: honest_weight_numpy_float64_def h a float64_sixth)
  have s: "sum_list (replicate 6 (6004799503160661 / 2 ^ 55 :: real)) = 1 - 1 / 2 ^ 54"
    by (simp add: numeral_eq_Suc)
  from s have "sum_list (replicate 6 (6004799503160661 / 2 ^ 55 :: real)) \<noteq> 1"
    by simp
  with h a w s show ?thesis by blast
qed

text \<open>
  C3. For every matrix of cumulative probabilities, monotonic in its rows or not, the
  class probabilities are returned, every row sums to 1 (so to 1 within \<open>1e-9\<close>) and
  no entry is negative.
\<close>

theorem class_probs_rows_stochastic:
  "\<exists>cp. class_probs probs = Inr cp \<and> length cp = length probs
     \<and> (\<forall>i < length probs. length (cp ! i) = length (probs ! i) + 1)
     \<and> (\<forall>row \<in> set cp. sum_list row = 1 \<and> \<bar>sum_list row - 1\<bar> \<le> 1 / 10 ^ 9
                            \<and> (\<forall>p \<in> set row. 0 \<le> p))"
proof -
  let ?clip = "\<lambda>row. map (\<lambda>x. if x < 0 then 0 else x) (map2 (-) (row @ [1::real]) (0 # row))"
  let ?cp = "map (\<lambda>row. map (\<lambda>x. x / sum_list (?clip row)) (?clip row)) probs"
  have cp: "class_probs probs = Inr ?cp"
    unfolding class_probs_returns clipped_rows by (simp add: comp_def)
  have "sum_list (map (\<lambda>x. x / sum_list (?clip row)) (?clip row)) = 1" for row
    using clipped_row_sum_ge_1 [of row]
    by (simp add: sum_list_divide del: map_map)
  moreover have "0 \<le> p" if "p \<in> set (map (\<lambda>x. x / sum_list (?clip row)) (?clip row))" for p row
    using that clipped_row_sum_ge_1 [of row] by (auto simp del: map_map)
  ultimately show ?thesis
    unfolding cp by (auto simp del: map_map)
qed


theorem class_probs_rows_stochastic_witness:
  "\<exists>cp. class_probs [[9/10, 3/10]] = Inr cp \<and> length cp = length [[9/10, 3/10 :: real]]
     \<and> (\<forall>i < length [[9/10, 3/10 :: real]]. length (cp ! i) = length ([[9/10, 3/10 :: real]] ! i) + 1)
     \<and> (\<forall>row \<in> set cp. sum_list row = 1 \<and> \<bar>sum_list row - 1\<bar> \<le> 1 / 10 ^ 9
                            \<and> (\<forall>p \<in> set row. 0 \<le> p))"
  by (rule class_probs_rows_stochastic)




section \<open>Properties of the variance\<close>


lemma andthen_simps [simp]: "andthen (Inr x) f = f x" "andthen (Inl e) f = Inl e"
  by (simp_all add: andthen_def)

lemma lookup_Some [simp]: "d k = Some v \<Longrightarrow> lookup d k = Inr v"
  by (simp add: lookup_def)

lemma sum_list_upt: "sum_list (map f [0..<m]) = (\<Sum>j < m. f j)" for f :: "nat \<Rightarrow> real"
  by (simp add: interv_sum_list_conv_sum_set_nat atLeast0LessThan)

lemma demeaned_closed:
  assumes W: "shape r m W" and y: "length y = m" and p: "length pm = r"
  shows "map2 (\<lambda>row c. map (\<lambda>x. x - c) row) (map (\<lambda>row. map2 (*) row y) W) pm
         = map (\<lambda>i. map (\<lambda>j. W ! i ! j * y ! j - pm ! i) [0..<m]) [0..<r]"
proof (rule nth_equalityI)
  show "length (map2 (\<lambda>row c. map (\<lambda>x. x - c) row) (map (\<lambda>row. map2 (*) row y) W) pm)
        = length (map (\<lambda>i. map (\<lambda>j. W ! i ! j * y ! j - pm ! i) [0..<m]) [0..<r])"
    using W p by (simp add: shape_def)
next
  fix i
  assume "i < length (map2 (\<lambda>row c. map (\<lambda>x. x - c) row) (map (\<lambda>row. map2 (*) row y) W) pm)"
  then have i: "i < r" using W p by (simp add: shape_def)
  then have len: "length (W ! i) = m" using W by (simp add: shape_def)
  have "map2 (\<lambda>row c. map (\<lambda>x. x - c) row) (map (\<lambda>row. map2 (*) row y) W) pm ! i
        = map (\<lambda>x. x - pm ! i) (map2 (*) (W ! i) y)"
    using i W p by (simp add: shape_def)
  also have "\<dots> = map (\<lambda>j. W ! i ! j * y ! j - pm ! i) [0..<m]"
    using len y by (auto intro!: nth_equalityI)
  finally show "map2 (\<lambda>row c. map (\<lambda>x. x - c) row) (map (\<lambda>row. map2 (*) row y) W) pm ! i
        = map (\<lambda>i. map (\<lambda>j. W ! i ! j * y ! j - pm ! i) [0..<m]) [0..<r] ! i"
    using i by simp
qed

lemma class_variance_closed:
  assumes W: "shape r m W" and y: "length y = m"
    and w: "weights k = Some W" and ob: "outcome_binary k = Some y"
    and cols: "\<forall>row \<in> set probs. k - 1 < length row" and rows: "length probs = r"
    and n: "1 < n"
  shows "class_variance probs weights outcome_binary n k =
           Inr (map (\<lambda>i. map (\<lambda>j. W ! i ! j * y ! j - probs ! i ! (k - 1) / real n) [0..<m]) [0..<r],
                map (\<lambda>i. (\<Sum>j < m. (W ! i ! j * y ! j - probs ! i ! (k - 1) / real n)\<^sup>2)
                            * (real n / (real n - 1))) [0..<r])"
proof -
  let ?pm = "map (\<lambda>x. x / real n) (map (\<lambda>row. row ! (k - 1)) probs)"
  have col: "column (k - 1) probs = Inr (map (\<lambda>row. row ! (k - 1)) probs)"
    using cols by (auto simp: column_def)
  have ok: "\<not> ((\<exists>row \<in> set W. length row \<noteq> length y) \<or> length W \<noteq> length ?pm)"
    using W y rows by (simp add: shape_def)
  have pm: "length ?pm = r" using rows by simp
  have D: "map2 (\<lambda>row c. map (\<lambda>x. x - c) row) (map (\<lambda>row. map2 (*) row y) W) ?pm
           = map (\<lambda>i. map (\<lambda>j. W ! i ! j * y ! j - probs ! i ! (k - 1) / real n) [0..<m]) [0..<r]"
    unfolding demeaned_closed [OF W y pm] using rows by simp
  have lw: "lookup weights k = Inr W" and lo: "lookup outcome_binary k = Inr y"
    using w ob by (simp_all add: lookup_def)
  show ?thesis
    unfolding class_variance_def col andthen_simps Let_def lw lo if_not_P [OF ok] D
    using n by (simp add: comp_def sum_list_upt)
qed


lemma variance_loop_closed:
  assumes "\<forall>k \<in> set ks. class_variance probs weights ob n k = Inr (D k, V k)"
  shows "variance_loop probs weights ob n ks (dm, vr) =
           Inr (\<lambda>k. if k \<in> set ks then Some (D k) else dm k,
                \<lambda>k. if k \<in> set ks then Some (V k) else vr k)"
  using assms by (induction ks arbitrary: dm vr) (auto intro!: ext)

lemma shift_loop_closed:
  assumes "\<forall>k \<in> set ks. d k = Some (f k)"
  shows "shift_loop d ks d_first =
           Inr (\<lambda>x. if x \<in> Suc ` set ks then Some (f (x - 1)) else d_first x)"
  using assms by (induction ks arbitrary: d_first) (auto intro!: ext)

lemma covariance_loop_closed:
  assumes "\<forall>k \<in> set ks. dem_first k = Some (A k) \<and> dem_last k = Some (B k)
                          \<and> same_shape (A k) (B k)"
    and "n \<noteq> 1"
  shows "covariance_loop dem_first dem_last n ks cov =
           Inr (\<lambda>k. if k \<in> set ks
                     then Some (map (\<lambda>s. s * 2 * (real n / (real n - 1)))
                                  (map sum_list (map2 (map2 (*)) (A k) (B k))))
                     else cov k)"
  using assms by (induction ks arbitrary: cov) (auto intro!: ext)

lemma final_loop_closed:
  assumes "\<forall>k \<in> set ks. var_last k = Some (a k) \<and> var_first k = Some (b k) \<and> cov k = Some (c k)
                          \<and> length (a k) = r \<and> length (b k) = r \<and> length (c k) = r"
  shows "final_loop var_last var_first cov r ks cols =
           Inr (cols @ map (\<lambda>k. map (\<lambda>i. a k ! i + b k ! i - c k ! i) [0..<r]) ks)"
  using assms by (induction ks arbitrary: cols) auto


lemma cov_rows_closed:
  "map (\<lambda>s. s * 2 * c)
     (map sum_list (map2 (map2 (*)) (map (\<lambda>i. map (f i) [0..<m]) [0..<r])
                                   (map (\<lambda>i. map (g i) [0..<m]) [0..<r])))
   = map (\<lambda>i. 2 * c * (\<Sum>j < m. f i j * g i j)) [0..<r]" for c :: real
  by (simp add: map2_map_map comp_def sum_list_upt mult_ac)

text \<open>
  C2. With at least two classes, a sample size \<open>n > 1\<close>, weight matrices of \<open>r\<close> rows
  and \<open>m\<close> columns, outcome vectors of \<open>m\<close> entries and \<open>r\<close> rows of predictions,
  \<open>honest_variance\<close> returns an \<open>r \<times> nclass\<close> matrix whose entry for the row \<open>i\<close> and
  the class \<open>k\<close> is \<open>Var_k + Var_{k-1} - Cov_k\<close>; the cut-points 0 and \<open>nclass\<close>
  contribute neither variance nor covariance, so the first class has the variance
  \<open>Var_1\<close> and the last \<open>Var_{nclass-1}\<close>.
\<close>

theorem honest_variance_formula:
  assumes nclass: "2 \<le> nclass" and n: "1 < n"
    and inputs: "\<forall>k. 1 \<le> k \<and> k < nclass \<longrightarrow>
                   weights k = Some (W k) \<and> outcome_binary k = Some (y k)
                   \<and> shape r m (W k) \<and> length (y k) = m"
    and probs: "shape r (nclass - 1) probs"
  shows "\<exists>V. honest_variance probs weights outcome_binary nclass n = Inr V
           \<and> shape r nclass V
           \<and> (\<forall>i < r. \<forall>k. 1 \<le> k \<and> k \<le> nclass \<longrightarrow>
                  V ! i ! (k - 1) =
                    Var_spec W y probs n m nclass k i + Var_spec W y probs n m nclass (k - 1) i
                      - Cov_spec W y probs n m nclass k i)
           \<and> (\<forall>i < r. V ! i ! 0 = Var_spec W y probs n m nclass 1 i
                      \<and> V ! i ! (nclass - 1) = Var_spec W y probs n m nclass (nclass - 1) i)"
proof -
  define D where "D k = map (\<lambda>i. map (\<lambda>j. d_spec W y probs n nclass k i j) [0..<m]) [0..<r]" for k
  define Vv where "Vv k = map (\<lambda>i. Var_spec W y probs n m nclass k i) [0..<r]" for k
  define Cc where "Cc k = map (\<lambda>i. Cov_spec W y probs n m nclass k i) [0..<r]" for k
  have rows: "length probs = r" and cols: "\<forall>row \<in> set probs. length row = nclass - 1"
    using probs by (simp_all add: shape_def)
  have cv: "class_variance probs weights outcome_binary n k = Inr (D k, Vv k)"
    if "k \<in> set [1..<nclass]" for k
  proof -
    from that have k: "1 \<le> k" "k < nclass" by auto
    with inputs have W: "shape r m (W k)" and y: "length (y k) = m"
      and w: "weights k = Some (W k)" and ob: "outcome_binary k = Some (y k)" by auto
    have c: "\<forall>row \<in> set probs. k - 1 < length row" using cols k by auto
    show ?thesis
      unfolding class_variance_closed [where weights = weights and outcome_binary = outcome_binary
          and k = k, OF W y w ob c rows n] D_def Vv_def d_spec_def Var_spec_def
      using k by (simp add: mult.commute)
  qed
  define dm where "dm = (\<lambda>k. if k \<in> set [1..<nclass] then Some (D k) else None)"
  define vr where "vr = (\<lambda>k. if k \<in> set [1..<nclass] then Some (Vv k) else None)"
  have loop1: "variance_loop probs weights outcome_binary n [1..<nclass] (Map.empty, Map.empty)
               = Inr (dm, vr)"
    unfolding dm_def vr_def by (rule variance_loop_closed) (use cv in blast)
  have D0: "zeros_like (D 1) = D 0" and Dn: "zeros_like (D 1) = D nclass"
    by (simp_all add: zeros_like_def D_def d_spec_def comp_def)
  have V0: "zeros_like_vec (Vv 1) = Vv 0" and Vn: "zeros_like_vec (Vv 1) = Vv nclass"
    by (simp_all add: zeros_like_vec_def Vv_def Var_spec_def comp_def)
  have dm1: "lookup dm 1 = Inr (D 1)" and vr1: "lookup vr 1 = Inr (Vv 1)"
    using nclass by (simp_all add: dm_def vr_def lookup_def)
  define dm_last where "dm_last = dm(nclass \<mapsto> zeros_like (D 1))"
  define vr_last where "vr_last = vr(nclass \<mapsto> zeros_like_vec (Vv 1))"
  have dm_last: "dm_last k = Some (D k)" and vr_last: "vr_last k = Some (Vv k)"
    if "1 \<le> k" "k \<le> nclass" for k
    using that Dn Vn by (auto simp: dm_last_def vr_last_def dm_def vr_def)
  have dml1: "lookup dm_last 1 = Inr (D 1)" and vrl1: "lookup vr_last 1 = Inr (Vv 1)"
    using nclass by (simp_all add: dm_last vr_last)
  define dm_first where
    "dm_first = (\<lambda>x. if x \<in> Suc ` set [1..<nclass] then Some (D (x - 1))
                      else [1 \<mapsto> zeros_like (D 1)] x)"
  define vr_first where
    "vr_first = (\<lambda>x. if x \<in> Suc ` set [1..<nclass] then Some (Vv (x - 1))
                      else [1 \<mapsto> zeros_like_vec (Vv 1)] x)"
  have shift_d: "shift_loop dm_last [1..<nclass] [1 \<mapsto> zeros_like (D 1)] = Inr dm_first"
    unfolding dm_first_def by (rule shift_loop_closed) (simp add: dm_last)
  have shift_v: "shift_loop vr_last [1..<nclass] [1 \<mapsto> zeros_like_vec (Vv 1)] = Inr vr_first"
    unfolding vr_first_def by (rule shift_loop_closed) (simp add: vr_last)
  have dm_first: "dm_first k = Some (D (k - 1))" and vr_first: "vr_first k = Some (Vv (k - 1))"
    if "1 \<le> k" "k \<le> nclass" for k
    using that D0 V0 by (auto simp: dm_first_def vr_first_def)
  have shapes: "same_shape (D j) (D k)" for j k
    by (simp add: same_shape_def D_def comp_def)
  define cov where
    "cov = (\<lambda>k. if k \<in> set [1..<nclass + 1]
                 then Some (map (\<lambda>s. s * 2 * (real n / (real n - 1)))
                              (map sum_list (map2 (map2 (*)) (D (k - 1)) (D k))))
                 else None)"
  have covl: "covariance_loop dm_first dm_last n [1..<nclass + 1] Map.empty = Inr cov"
    unfolding cov_def
    by (rule covariance_loop_closed) (use n in \<open>auto simp: dm_first dm_last shapes\<close>)
  have cov: "cov k = Some (Cc k)" if "1 \<le> k" "k \<le> nclass" for k
    using that unfolding cov_def Cc_def D_def cov_rows_closed Cov_spec_def by simp
  let ?columns = "map (\<lambda>k. map (\<lambda>i. Vv k ! i + Vv (k - 1) ! i - Cc k ! i) [0..<r]) [1..<nclass + 1]"
  have fin: "final_loop vr_last vr_first cov r [1..<nclass + 1] [] = Inr ?columns"
  proof -
    have "\<forall>k \<in> set [1..<nclass + 1].
            vr_last k = Some (Vv k) \<and> vr_first k = Some (Vv (k - 1)) \<and> cov k = Some (Cc k)
            \<and> length (Vv k) = r \<and> length (Vv (k - 1)) = r \<and> length (Cc k) = r"
      by (auto simp: vr_last vr_first cov Vv_def Cc_def)
    from final_loop_closed [OF this, of "[]"] show ?thesis
      by (simp only: append_Nil)
  qed
  let ?V = "map (\<lambda>i. map (\<lambda>col. col ! i) ?columns) [0..<r]"
  have hv: "honest_variance probs weights outcome_binary nclass n = Inr ?V"
    unfolding honest_variance_def loop1
    by (simp only: andthen_simps prod.case dm1 Let_def dm_last_def [symmetric] dml1 shift_d covl
        vr1 vr_last_def [symmetric] vrl1 shift_v rows fin)
  have entry: "?V ! i ! (k - 1) =
                 Var_spec W y probs n m nclass k i + Var_spec W y probs n m nclass (k - 1) i
                   - Cov_spec W y probs n m nclass k i"
    if "i < r" "1 \<le> k" "k \<le> nclass" for i k
  proof -
    have "1 + (k - 1) < nclass + 1" using that by simp
    then have "[1..<nclass + 1] ! (k - 1) = 1 + (k - 1)" by (rule nth_upt)
    then have "[1..<nclass + 1] ! (k - 1) = k" using that by simp
    then show ?thesis using that by (simp add: Vv_def Cc_def del: upt_Suc)
  qed
  have b0: "Var_spec W y probs n m nclass 0 i = 0" and bn: "Var_spec W y probs n m nclass nclass i = 0"
    and c1: "Cov_spec W y probs n m nclass 1 i = 0"
    and cn: "Cov_spec W y probs n m nclass nclass i = 0" for i
    by (simp_all add: Var_spec_def Cov_spec_def d_spec_def)
  have first: "?V ! i ! 0 = Var_spec W y probs n m nclass 1 i" if "i < r" for i
    using entry [OF that, of 1] nclass b0 [of i] c1 [of i] by simp
  have last: "?V ! i ! (nclass - 1) = Var_spec W y probs n m nclass (nclass - 1) i" if "i < r" for i
    using entry [OF that, of nclass] nclass bn [of i] cn [of i] by simp
  have "shape r nclass ?V" by (auto simp: shape_def)
  with hv entry first last show ?thesis by blast
qed


theorem honest_variance_formula_witness:
  "\<exists>V. honest_variance [[1/2, 3/4], [1/4, 1/2]]
          [1 \<mapsto> [[1/2, 1/2, 0], [0, 1/2, 1/2]], 2 \<mapsto> [[1/2, 1/2, 0], [0, 1/2, 1/2]]]
          [1 \<mapsto> [1, 0, 0], 2 \<mapsto> [1, 1, 0]] 3 3 = Inr V
       \<and> shape 2 3 V
       \<and> (\<forall>i < 2. \<forall>k. 1 \<le> k \<and> k \<le> 3 \<longrightarrow>
              V ! i ! (k - 1) =
                Var_spec (\<lambda>k. [[1/2, 1/2, 0], [0, 1/2, 1/2]])
                   (\<lambda>k. if k = 1 then [1, 0, 0] else [1, 1, 0]) [[1/2, 3/4], [1/4, 1/2]] 3 3 3 k i
                + Var_spec (\<lambda>k. [[1/2, 1/2, 0], [0, 1/2, 1/2]])
                   (\<lambda>k. if k = 1 then [1, 0, 0] else [1, 1, 0]) [[1/2, 3/4], [1/4, 1/2]] 3 3 3
                   (k - 1) i
                - Cov_spec (\<lambda>k. [[1/2, 1/2, 0], [0, 1/2, 1/2]])
                   (\<lambda>k. if k = 1 then [1, 0, 0] else [1, 1, 0]) [[1/2, 3/4], [1/4, 1/2]] 3 3 3 k i)
       \<and> (\<forall>i < 2. V ! i ! 0 =
                Var_spec (\<lambda>k. [[1/2, 1/2, 0], [0, 1/2, 1/2]])
                   (\<lambda>k. if k = 1 then [1, 0, 0] else [1, 1, 0]) [[1/2, 3/4], [1/4, 1/2]] 3 3 3 1 i
              \<and> V ! i ! (3 - 1) =
                Var_spec (\<lambda>k. [[1/2, 1/2, 0], [0, 1/2, 1/2]])
                   (\<lambda>k. if k = 1 then [1, 0, 0] else [1, 1, 0]) [[1/2, 3/4], [1/4, 1/2]] 3 3 3
                   (3 - 1) i)"
proof -
  let ?weights = "[1 \<mapsto> [[1/2, 1/2, 0], [0, 1/2, 1/2]], 2 \<mapsto> [[1/2, 1/2, 0], [0, 1/2, 1/2 :: real]]]"
  let ?ob = "[1 \<mapsto> [1, 0, 0], 2 \<mapsto> [1, 1, 0 :: real]]"
  let ?W = "\<lambda>k :: nat. [[1/2, 1/2, 0], [0, 1/2, 1/2 :: real]]"
  let ?y = "\<lambda>k :: nat. if k = 1 then [1, 0, 0] else [1, 1, 0 :: real]"
  have inputs: "\<forall>k. 1 \<le> k \<and> k < 3 \<longrightarrow>
                  ?weights k = Some (?W k) \<and> ?ob k = Some (?y k)
                  \<and> shape 2 3 (?W k) \<and> length (?y k) = 3"
  proof (intro allI impI)
    fix k :: nat
    assume "1 \<le> k \<and> k < 3"
    then have "k = 1 \<or> k = 2" by arith
    then show "?weights k = Some (?W k) \<and> ?ob k = Some (?y k)
                 \<and> shape 2 3 (?W k) \<and> length (?y k) = 3"
      by (auto simp: shape_def)
  qed
  have probs: "shape 2 (3 - 1) [[1/2, 3/4], [1/4, 1/2 :: real]]"
    by (simp add: shape_def)
  have c: "(2::nat) \<le> 3" and n: "(1::nat) < 3" by simp_all
  show ?thesis
    by (rule honest_variance_formula [OF c n inputs probs])
qed

section \<open>Properties of the variance in \<open>fit\<close>\<close>



lemma argsort_permutation:
  assumes d: "distinct ind" and s: "set ind = {..<length ind}"
  shows "length (argsort ind) = length ind"
    and "\<And>p. p < length ind \<Longrightarrow> argsort ind ! (ind ! p) = p"
    and "\<And>k. k < length ind \<Longrightarrow> argsort ind ! k < length ind"
proof -
  let ?n = "length ind"
  let ?zs = "zip ind [0..<?n]"
  let ?ss = "sort_key fst ?zs"
  have fst_zs: "map fst ?zs = ind" by simp
  have "distinct (map fst ?zs)" using d by simp
  then have "distinct ?zs" and "inj_on fst (set ?zs)"
    by (simp_all only: distinct_map)
  then have dist: "distinct (map fst ?ss)"
    by (simp only: distinct_map distinct_sort set_sort simp_thms)
  have "set (map fst ?ss) = set (map fst ?zs)"
    by (simp only: set_map set_sort)
  also have "\<dots> = set ind" by (simp only: fst_zs)
  also have "\<dots> = set [0..<?n]" using s by (simp add: atLeast0LessThan)
  finally have set: "set (map fst ?ss) = set [0..<?n]" .
  have sorted: "sorted (map fst ?ss)" by (rule sorted_sort_key)
  have keys: "map fst ?ss = [0..<?n]"
    by (rule sorted_distinct_set_unique [OF sorted dist _ _ set]) simp_all
  show len: "length (argsort ind) = ?n" by (simp add: argsort_def)
  have inv: "argsort ind ! k < ?n \<and> ind ! (argsort ind ! k) = k" if k: "k < ?n" for k
  proof -
    have kl: "k < length ?ss" using k by simp
    have "fst (?ss ! k) = map fst ?ss ! k" using kl by simp
    also have "\<dots> = k" unfolding keys using k by simp
    finally have f: "fst (?ss ! k) = k" .
    have "?ss ! k \<in> set ?zs" using kl by (metis nth_mem set_sort)
    then obtain q where q: "q < ?n" "?ss ! k = (ind ! q, q)"
      by (auto simp: set_zip)
    with f have "ind ! q = k" by simp
    moreover have "argsort ind ! k = q" using kl q by (simp add: argsort_def)
    ultimately show ?thesis using q by simp
  qed
  show "argsort ind ! k < ?n" if "k < ?n" for k using inv [OF that] by simp
  show "argsort ind ! (ind ! p) = p" if p: "p < ?n" for p
  proof -
    have "ind ! p < ?n" using p s by (metis lessThan_iff nth_mem)
    from inv [OF this] have q: "argsort ind ! (ind ! p) < ?n"
      and e: "ind ! (argsort ind ! (ind ! p)) = ind ! p" by simp_all
    from nth_eq_iff_index_eq [OF d q p] e show ?thesis by simp
  qed
qed

lemma honest_variance_length:
  assumes "honest_variance probs weights ob nclass n = Inr V"
  shows "length V = length probs"
  using assms
  by (auto simp: honest_variance_def andthen_def Let_def split: sum.splits prod.splits)

lemma honest_variance_nclass:
  assumes "honest_variance probs weights ob nclass n = Inr V"
  shows "2 \<le> nclass"
proof (rule ccontr)
  assume "\<not> 2 \<le> nclass"
  then have "nclass \<le> Suc 0" by simp
  with assms show False
    by (simp add: honest_variance_def lookup_def)
qed


lemma take_rows_ok:
  "\<forall>i \<in> set ind. i < length M \<Longrightarrow> take_rows M ind = Inr (map (\<lambda>i. M ! i) ind)"
  by (auto simp: take_rows_def)

text \<open>
  C6. In \<open>fit\<close> with honesty and inference the variances of the honest and of the
  training subset are two calls of \<open>honest_variance\<close>, on the rows of the subset and with
  the size of the subset as \<open>n\<close>; when the two index lists partition the observations
  \<open>0, \<dots>, n_samples - 1\<close>, the stacked block reordered by the argsort of the
  concatenated indices holds, at every original index, the variance row computed for
  that observation within its own subset.
\<close>

theorem fit_variance_reassembled:
  assumes d: "distinct (ind_est @ ind_tr)" and s: "set (ind_est @ ind_tr) = {..<length probs}"
    and wh: "weights_rows weights ind_est [1..<nclass] Map.empty = Inr weights_honest"
    and wt: "weights_rows weights ind_tr [1..<nclass] Map.empty = Inr weights_train"
    and vh: "honest_variance (map (\<lambda>i. probs ! i) ind_est) weights_honest outcome_binary_est
               nclass (length ind_est) = Inr variance_honest"
    and vt: "honest_variance (map (\<lambda>i. probs ! i) ind_tr) weights_train outcome_binary_est
               nclass (length ind_tr) = Inr variance_train"
  shows "\<exists>variance. fit_variance probs weights outcome_binary_est nclass ind_est ind_tr = Inr variance
           \<and> length variance = length probs
           \<and> (\<forall>p < length ind_est. variance ! (ind_est ! p) = variance_honest ! p)
           \<and> (\<forall>p < length ind_tr. variance ! (ind_tr ! p) = variance_train ! p)"
proof -
  let ?ia = "ind_est @ ind_tr"
  let ?vs = "variance_honest @ variance_train"
  have "card (set ?ia) = length ?ia" using d by (rule distinct_card)
  with s have len: "length ?ia = length probs" by simp
  have s': "set ?ia = {..<length ?ia}" using s len by simp
  have lh: "length variance_honest = length ind_est" and lt: "length variance_train = length ind_tr"
    using honest_variance_length [OF vh] honest_variance_length [OF vt] by simp_all
  have nc: "\<not> nclass < 2" using honest_variance_nclass [OF vh] by simp
  have ph: "take_rows probs ind_est = Inr (map (\<lambda>i. probs ! i) ind_est)"
    and pt: "take_rows probs ind_tr = Inr (map (\<lambda>i. probs ! i) ind_tr)"
    using s by (auto intro!: take_rows_ok)
  have "\<forall>i \<in> set (argsort ?ia). i < length ?vs"
    using argsort_permutation(1,3) [OF d s'] lh lt
    by (metis in_set_conv_nth length_append)
  then have fin: "take_rows ?vs (argsort ?ia) = Inr (map (\<lambda>i. ?vs ! i) (argsort ?ia))"
    by (rule take_rows_ok)
  let ?variance = "map (\<lambda>i. ?vs ! i) (argsort ?ia)"
  have fv: "fit_variance probs weights outcome_binary_est nclass ind_est ind_tr = Inr ?variance"
    unfolding fit_variance_def
    by (simp only: ph pt wh wt vh vt fin andthen_simps Let_def if_not_P [OF nc])
  have at: "?variance ! (?ia ! p) = ?vs ! p" if "p < length ?ia" for p
  proof -
    have "?ia ! p < length (argsort ?ia)"
      using that s' argsort_permutation(1) [OF d s'] by (metis lessThan_iff nth_mem)
    then show ?thesis
      using argsort_permutation(2) [OF d s' that] by simp
  qed
  have "?variance ! (ind_est ! p) = variance_honest ! p" if "p < length ind_est" for p
    using at [of p] that lh by (simp add: nth_append)
  moreover have "?variance ! (ind_tr ! p) = variance_train ! p" if "p < length ind_tr" for p
    using at [of "length ind_est + p"] that lh by (simp add: nth_append)
  moreover have "length ?variance = length probs"
    using argsort_permutation(1) [OF d s'] len by simp
  ultimately show ?thesis using fv by blast
qed


theorem fit_variance_reassembled_witness:
  "\<exists>variance.
      fit_variance [[1/2, 3/4], [1/4, 1/2], [1/3, 2/3], [1/5, 4/5]]
        [1 \<mapsto> [[1/2, 1/2], [0, 1], [1, 0], [1/2, 1/2]],
         2 \<mapsto> [[1/2, 1/2], [0, 1], [1, 0], [1/2, 1/2]]]
        [1 \<mapsto> [1, 0], 2 \<mapsto> [1, 1]] 3 [2, 0] [3, 1] = Inr variance
      \<and> length variance = length [[1/2, 3/4], [1/4, 1/2], [1/3, 2/3], [1/5, 4/5 :: real]]
      \<and> (\<forall>p < length [2, 0 :: nat].
            variance ! ([2, 0] ! p) = [[13/9, 1/9, 10/9], [1/4, 5/16, 1/16]] ! p)
      \<and> (\<forall>p < length [3, 1 :: nat].
            variance ! ([3, 1] ! p) = [[17/50, 13/50, 1/25], [1/16, 25/16, 5/4]] ! p)"
proof -
  let ?probs = "[[1/2, 3/4], [1/4, 1/2], [1/3, 2/3], [1/5, 4/5 :: real]]"
  let ?weights = "[1 \<mapsto> [[1/2, 1/2], [0, 1], [1, 0], [1/2, 1/2]],
                   2 \<mapsto> [[1/2, 1/2], [0, 1], [1, 0], [1/2, 1/2 :: real]]]"
  have d: "distinct ([2, 0] @ [3, 1 :: nat])" by simp
  have s: "set ([2, 0] @ [3, 1 :: nat]) = {..<length ?probs}" by auto
  have wh: "weights_rows ?weights [2, 0] [1..<3] Map.empty
            = Inr [1 \<mapsto> [[1, 0], [1/2, 1/2]], 2 \<mapsto> [[1, 0], [1/2, 1/2]]]"
    by (simp add: take_rows_def lookup_def upt_rec numeral_2_eq_2)
  have wt: "weights_rows ?weights [3, 1] [1..<3] Map.empty
            = Inr [1 \<mapsto> [[1/2, 1/2], [0, 1]], 2 \<mapsto> [[1/2, 1/2], [0, 1]]]"
    by (simp add: take_rows_def lookup_def upt_rec numeral_2_eq_2 numeral_3_eq_3)
  have vh: "honest_variance (map (\<lambda>i. ?probs ! i) [2, 0])
              [1 \<mapsto> [[1, 0], [1/2, 1/2]], 2 \<mapsto> [[1, 0], [1/2, 1/2]]]
              [1 \<mapsto> [1, 0], 2 \<mapsto> [1, 1]] 3 (length [2, 0 :: nat])
            = Inr [[13/9, 1/9, 10/9], [1/4, 5/16, 1/16]]"
    by code_simp
  have vt: "honest_variance (map (\<lambda>i. ?probs ! i) [3, 1])
              [1 \<mapsto> [[1/2, 1/2], [0, 1]], 2 \<mapsto> [[1/2, 1/2], [0, 1]]]
              [1 \<mapsto> [1, 0], 2 \<mapsto> [1, 1]] 3 (length [3, 1 :: nat])
            = Inr [[17/50, 13/50, 1/25], [1/16, 25/16, 5/4]]"
    by code_simp
  show ?thesis
    by (rule fit_variance_reassembled [OF d s wh wt vh vt])
qed


section \<open>Properties of \<open>predict\<close> and \<open>margin\<close>\<close>


lemma adjacent_differences_card:
  "sorted s \<Longrightarrow> s \<noteq> [] \<Longrightarrow>
   length (filter (\<lambda>(a, b). a \<noteq> b) (zip (tl s) (butlast s))) + 1 = card (set s)"
  for s :: "real list"
proof (induction s rule: induct_list012)
  case 1
  then show ?case by simp
next
  case (2 x)
  then show ?case by simp
next
  case (3 x y zs)
  have IH: "length (filter (\<lambda>(a, b). a \<noteq> b) (zip (tl (y # zs)) (butlast (y # zs)))) + 1
            = card (set (y # zs))"
    using 3 by simp
  have le: "\<forall>z \<in> set (y # zs). x \<le> z" using 3(3) by auto
  show ?case
  proof (cases "x = y")
    case True
    then have "set (x # y # zs) = set (y # zs)" by auto
    with IH True show ?thesis by simp
  next
    case False
    with le have "x \<notin> set (y # zs)" using 3(3) by auto
    then have "card (set (x # y # zs)) = Suc (card (set (y # zs)))" by simp
    with IH False show ?thesis by simp
  qed
qed

lemma n_unique_col_card:
  assumes "v \<noteq> []"
  shows "n_unique_col v = card (set v)"
proof -
  have "sort v \<noteq> []" using assms by (metis length_0_conv length_sort)
  with adjacent_differences_card [of "sort v"] show ?thesis
    by (simp add: n_unique_col_def Let_def)
qed

lemma n_unique_col_Nil: "n_unique_col [] = 1"
  by (simp add: n_unique_col_def)

lemma n_unique_col_le_1: "card (set v) \<le> 1 \<Longrightarrow> n_unique_col v \<le> 1"
  by (cases "v = []") (simp_all add: n_unique_col_card n_unique_col_Nil)

text \<open>
  C9. When \<open>X\<close> passes its check and some column of the evaluation matrix has at most
  one distinct value, \<open>margin\<close> raises a \<open>ValueError\<close>; with a Boolean \<open>verbose\<close>, a
  window in \<open>(0, 1]\<close> and a valid evaluation point it is the error of the constant
  covariates. The result does not depend on \<open>effects\<close>: no evaluation point, perturbed
  matrix, prediction or effect is computed.
\<close>

theorem margin_constant_covariate:
  assumes X: "margin_X ext self X = Inr X'"
    and data: "margin_data self X' = Inr (X_eval, X_est)"
    and j: "j < n_features self" and const: "card (set (col j X_eval)) \<le> 1"
  shows "(\<exists>msg. margin ext effects self X eval_point window verbose = Inl (ValueError msg))
         \<and> (verbose = PyBool b \<and> window = PyFloat w \<and> 0 < w \<and> w \<le> 1
              \<and> eval_point = PyStr ep \<and> ep \<in> {''mean'', ''atmean'', ''atmedian''}
            \<longrightarrow> margin ext effects self X eval_point window verbose = Inl constant_error)"
proof -
  have ex: "\<exists>n \<in> set (map (\<lambda>j. n_unique_col (col j X_eval)) [0..<n_features self]). n \<le> 1"
    using j n_unique_col_le_1 [OF const] by auto
  show ?thesis
    using X data ex
    by (auto simp: margin_def Let_def constant_error_def split: pyval.splits)
qed















theorem margin_constant_covariate_witness:
  "margin_X \<lparr>check_array = Inr, predict_default = (\<lambda>X n. Inr X),
           predict_leafmeans = (\<lambda>X n. Inr X), predict_weights = (\<lambda>X n. Inr (X, Map.empty))\<rparr>
     \<lparr>forest_X_fit = [[1, 2], [1, 3]], forest_probs = [[1/4, 3/4], [1/2, 1/2]],
           forest_variance = EmptyDict, forest_outcome_binary_est = Map.empty,
           forest_ind_est = [], n_features = 2, n_class = 2, honesty = False,
           inference = False, prob = None\<rparr> None = Inr None
   \<and> margin_data \<lparr>forest_X_fit = [[1, 2], [1, 3]], forest_probs = [[1/4, 3/4], [1/2, 1/2]],
           forest_variance = EmptyDict, forest_outcome_binary_est = Map.empty,
           forest_ind_est = [], n_features = 2, n_class = 2, honesty = False,
           inference = False, prob = None\<rparr> None = Inr ([[1, 2], [1, 3]], [[1, 2], [1, 3]])
   \<and> card (set (col 0 [[1, 2], [1, 3]])) \<le> 1
   \<and> margin \<lparr>check_array = Inr, predict_default = (\<lambda>X n. Inr X),
           predict_leafmeans = (\<lambda>X n. Inr X), predict_weights = (\<lambda>X n. Inr (X, Map.empty))\<rparr>
        (\<lambda>p :: perturbation. Inr p)
        \<lparr>forest_X_fit = [[1, 2], [1, 3]], forest_probs = [[1/4, 3/4], [1/2, 1/2]],
           forest_variance = EmptyDict, forest_outcome_binary_est = Map.empty,
           forest_ind_est = [], n_features = 2, n_class = 2, honesty = False,
           inference = False, prob = None\<rparr>
        None (PyStr ''mean'') (PyFloat (1/10)) (PyBool True) = Inl constant_error"
proof -
  let ?ext = "\<lparr>check_array = Inr, predict_default = (\<lambda>X n. Inr X),
           predict_leafmeans = (\<lambda>X n. Inr X), predict_weights = (\<lambda>X n. Inr (X, Map.empty))\<rparr>"
  let ?self = "\<lparr>forest_X_fit = [[1, 2], [1, 3]], forest_probs = [[1/4, 3/4], [1/2, 1/2]],
           forest_variance = EmptyDict, forest_outcome_binary_est = Map.empty,
           forest_ind_est = [], n_features = 2, n_class = 2, honesty = False,
           inference = False, prob = None\<rparr>"
  have X: "margin_X ?ext ?self None = Inr None"
    by (simp add: margin_X_def)
  have data: "margin_data ?self None = Inr ([[1, 2], [1, 3]], [[1, 2], [1, 3]])"
    by (simp add: margin_data_def)
  have j: "0 < n_features ?self" by simp
  have const: "card (set (col 0 [[1, 2], [1, 3 :: real]])) \<le> 1"
    by (simp add: col_def)
  from margin_constant_covariate [OF X data j const, where effects = "\<lambda>p. Inr p"
      and eval_point = "PyStr ''mean''" and window = "PyFloat (1/10)" and verbose = "PyBool True"
      and b = True and w = "1/10" and ep = "''mean''"] X data const
  show ?thesis by simp
qed

text \<open>
  C10. For a fitted estimator whose stored matrix passes the array check unchanged and
  has \<open>n_features\<close> columns, \<open>predict\<close> called with that matrix returns what \<open>predict\<close>
  called with \<open>X = None\<close> returns, whatever the prediction methods for new data are
  (they are not called); with \<open>prob = True\<close> this is the stored class probabilities and
  the stored variance.
\<close>

theorem predict_X_fit_as_None:
  assumes chk: "check_array ext (forest_X_fit self) = Inr (forest_X_fit self)"
    and nf: "ncols (forest_X_fit self) = n_features self"
  shows "predict ext self (Some (forest_X_fit self)) prob_arg = predict ext self None prob_arg
         \<and> predict (ext\<lparr>predict_default := pd, predict_leafmeans := pl, predict_weights := pw\<rparr>)
              self (Some (forest_X_fit self)) prob_arg
            = predict ext self None prob_arg
         \<and> predict ext self (Some (forest_X_fit self)) (PyBool True)
            = Inr (\<lparr>result_prob = True, result_predictions = Probabilities (forest_probs self),
                    result_variances = forest_variance self\<rparr>, self\<lparr>prob := Some True\<rparr>)"
  using assms by (simp add: predict_def Let_def split: pyval.splits)

theorem predict_X_fit_as_None_witness:
  "check_array \<lparr>check_array = Inr, predict_default = (\<lambda>X n. Inr X),
           predict_leafmeans = (\<lambda>X n. Inr X), predict_weights = (\<lambda>X n. Inr (X, Map.empty))\<rparr> [[1, 2], [1, 3]] = Inr [[1, 2], [1, 3]]
   \<and> predict \<lparr>check_array = Inr, predict_default = (\<lambda>X n. Inr X),
           predict_leafmeans = (\<lambda>X n. Inr X), predict_weights = (\<lambda>X n. Inr (X, Map.empty))\<rparr>
        \<lparr>forest_X_fit = [[1, 2], [1, 3]], forest_probs = [[1/4, 3/4], [1/2, 1/2]],
           forest_variance = EmptyDict, forest_outcome_binary_est = Map.empty,
           forest_ind_est = [], n_features = 2, n_class = 2, honesty = False,
           inference = False, prob = None\<rparr>
        (Some [[1, 2], [1, 3]]) (PyBool True)
      = predict \<lparr>check_array = Inr, predict_default = (\<lambda>X n. Inr X),
           predict_leafmeans = (\<lambda>X n. Inr X), predict_weights = (\<lambda>X n. Inr (X, Map.empty))\<rparr>
        \<lparr>forest_X_fit = [[1, 2], [1, 3]], forest_probs = [[1/4, 3/4], [1/2, 1/2]],
           forest_variance = EmptyDict, forest_outcome_binary_est = Map.empty,
           forest_ind_est = [], n_features = 2, n_class = 2, honesty = False,
           inference = False, prob = None\<rparr>
        None (PyBool True)
   \<and> predict \<lparr>check_array = Inr, predict_default = (\<lambda>X n. Inr X),
           predict_leafmeans = (\<lambda>X n. Inr X), predict_weights = (\<lambda>X n. Inr (X, Map.empty))\<rparr>
        \<lparr>forest_X_fit = [[1, 2], [1, 3]], forest_probs = [[1/4, 3/4], [1/2, 1/2]],
           forest_variance = EmptyDict, forest_outcome_binary_est = Map.empty,
           forest_ind_est = [], n_features = 2, n_class = 2, honesty = False,
           inference = False, prob = None\<rparr>
        (Some [[1, 2], [1, 3]]) (PyBool True)
      = Inr (\<lparr>result_prob = True, result_predictions = Probabilities [[1/4, 3/4], [1/2, 1/2]],
              result_variances = EmptyDict\<rparr>,
             \<lparr>forest_X_fit = [[1, 2], [1, 3]], forest_probs = [[1/4, 3/4], [1/2, 1/2]],
              forest_variance = EmptyDict, forest_outcome_binary_est = Map.empty,
              forest_ind_est = [], n_features = 2, n_class = 2, honesty = False,
              inference = False, prob = Some True\<rparr>)"
proof -
  let ?ext = "\<lparr>check_array = Inr, predict_default = (\<lambda>X n. Inr X),
           predict_leafmeans = (\<lambda>X n. Inr X), predict_weights = (\<lambda>X n. Inr (X, Map.empty))\<rparr>"
  let ?self = "\<lparr>forest_X_fit = [[1, 2], [1, 3]], forest_probs = [[1/4, 3/4], [1/2, 1/2]],
           forest_variance = EmptyDict, forest_outcome_binary_est = Map.empty,
           forest_ind_est = [], n_features = 2, n_class = 2, honesty = False,
           inference = False, prob = None\<rparr>"
  have chk: "check_array ?ext (forest_X_fit ?self) = Inr (forest_X_fit ?self)" by simp
  have nf: "ncols (forest_X_fit ?self) = n_features ?self" by (simp add: ncols_def)
  from predict_X_fit_as_None [OF chk nf, where prob_arg = "PyBool True"
      and pd = "\<lambda>X n. Inl KeyError" and pl = "\<lambda>X n. Inl KeyError"
      and pw = "\<lambda>X n. Inl KeyError"]
  have "predict ?ext ?self (Some (forest_X_fit ?self)) (PyBool True)
          = predict ?ext ?self None (PyBool True)"
    and "predict ?ext ?self (Some (forest_X_fit ?self)) (PyBool True)
          = Inr (\<lparr>result_prob = True, result_predictions = Probabilities (forest_probs ?self),
                  result_variances = forest_variance ?self\<rparr>, ?self\<lparr>prob := Some True\<rparr>)"
    by blast+
  then show ?thesis by simp
qed


end
